theory Spec2Isabelle
  imports Main "HOL-Library.Word"
begin

section \<open>Python values, errors and slices\<close>

text \<open>
  The exceptions the modelled code can raise.  A function that can raise returns
  \<open>error + 'a\<close>, with \<open>Inl\<close> for the exception.
\<close>

datatype error =
  KeyError string | ValueError | TypeError | IndexError | AttributeError | OverflowError

text \<open>A trace is a one-dimensional array of samples; sample arithmetic is on unbounded integers.\<close>

type_synonym trace = "int list"

text \<open>
  Python slice bounds: a negative bound counts from the end, and every bound is clamped
  to the sequence.
\<close>

definition slice_index :: "nat \<Rightarrow> int \<Rightarrow> nat" where
  "slice_index n i = (if i < 0 then nat (max 0 (int n + i)) else min n (nat i))"

text \<open>\<open>xs[a:b]\<close>\<close>

definition py_slice :: "'a list \<Rightarrow> int \<Rightarrow> int \<Rightarrow> 'a list" where
  "py_slice xs a b =
     (let lo = slice_index (length xs) a; hi = slice_index (length xs) b
      in take (hi - lo) (drop lo xs))"

text \<open>\<open>xs[a:]\<close>, where \<open>a\<close> may be \<open>None\<close>\<close>

definition py_slice_from :: "'a list \<Rightarrow> int option \<Rightarrow> 'a list" where
  "py_slice_from xs a =
     (case a of None \<Rightarrow> xs | Some i \<Rightarrow> drop (slice_index (length xs) i) xs)"

text \<open>\<open>xs[i]\<close>: a negative index counts from the end, an index out of range raises.\<close>

definition py_index :: "'a list \<Rightarrow> int \<Rightarrow> error + 'a" where
  "py_index xs i =
     (if 0 \<le> i \<and> i < int (length xs) then Inr (xs ! nat i)
      else if i < 0 \<and> - int (length xs) \<le> i then Inr (xs ! nat (int (length xs) + i))
      else Inl IndexError)"

section \<open>Opening a trace data set: \<open>AlignTraceDataFactory.open_trace_data\<close>\<close>

text \<open>
  \<open>os.path.splitext(p)[1]\<close>: the extension starts at the last dot of the last path
  component, unless only dots precede it in that component.
\<close>

definition basename :: "string \<Rightarrow> string" where
  "basename p = rev (takeWhile (\<lambda>c. c \<noteq> CHR ''/'') (rev p))"

definition splitext_ext :: "string \<Rightarrow> string" where
  "splitext_ext p =
     (let b = basename p;
          ext = rev (takeWhile (\<lambda>c. c \<noteq> CHR ''.'') (rev b));
          stem = take (length b - length ext - 1) b
      in if CHR ''.'' \<in> set b \<and> (\<exists>c \<in> set stem. c \<noteq> CHR ''.'') then CHR ''.'' # ext
         else [])"

text \<open>
  The argument of \<open>open_trace_data\<close>: a string, a \<open>pathlib.Path\<close>, a dict from channel
  name to file name, or any other object.
\<close>

datatype arg = PyStr string | PyPath string | PyDict "(string \<times> string) list" | PyOther

datatype ('d, 'n) align_trace_data = D15TraceData 'd | NumpyArrays 'n

text \<open>
  The two constructors read files: they are parameters here, \<open>d15\<close> for
  \<open>D15TraceData(filename)\<close> and \<open>npy\<close> for \<open>NumpyArrays(npy_files)\<close>.  A Python function
  that reaches its end without \<open>return\<close> returns \<open>None\<close>: the result \<open>Inr None\<close>.
\<close>

definition open_trace_data ::
  "(string \<Rightarrow> error + 'd) \<Rightarrow> ((string \<times> string) list \<Rightarrow> error + 'n) \<Rightarrow> arg
     \<Rightarrow> error + ('d, 'n) align_trace_data option" where
  "open_trace_data d15 npy trace_data_file =
     (case trace_data_file of
        PyStr p \<Rightarrow>
          if splitext_ext p = ''.meta''
          then (case d15 p of Inl e \<Rightarrow> Inl e | Inr t \<Rightarrow> Inr (Some (D15TraceData t)))
          else Inr None
      | PyPath p \<Rightarrow>
          if splitext_ext p = ''.meta''
          then (case d15 p of Inl e \<Rightarrow> Inl e | Inr t \<Rightarrow> Inr (Some (D15TraceData t)))
          else Inr None
      | PyDict files \<Rightarrow>
          (case npy files of Inl e \<Rightarrow> Inl e | Inr t \<Rightarrow> Inr (Some (NumpyArrays t)))
      | PyOther \<Rightarrow> Inl ValueError)"

section \<open>Plugin parameters\<close>

text \<open>
  A plugin receives its parameters as a dict from parameter name to a tuple whose first
  component is the value; \<open>parameter[name][0]\<close> raises \<open>KeyError\<close> for a missing name.
  Values are integers or booleans (a Python \<open>bool\<close> is the integer 0 or 1).
\<close>

datatype pval = PInt int | PBool bool

type_synonym params = "(string \<times> pval) list"

definition param :: "params \<Rightarrow> string \<Rightarrow> error + pval" where
  "param ps k = (case map_of ps k of None \<Rightarrow> Inl (KeyError k) | Some v \<Rightarrow> Inr v)"

fun num :: "pval \<Rightarrow> int" where
  "num (PInt i) = i"
| "num (PBool b) = (if b then 1 else 0)"

fun truth :: "pval \<Rightarrow> bool" where
  "truth (PInt i) = (i \<noteq> 0)"
| "truth (PBool b) = b"

section \<open>Triggers\<close>

text \<open>
  A mark list holds sample indices; an entry may be \<open>None\<close>.  A trigger returns a dict,
  in which the batch aligner looks up the key \<open>xmarks\<close>.  The search offset is an
  integer, or \<open>None\<close> when the previous stage's first mark was \<open>None\<close>.
\<close>

type_synonym xmarks = "int option list"

type_synonym tresult = "(string \<times> xmarks) list"

type_synonym trigger = "trace \<Rightarrow> int option \<Rightarrow> params \<Rightarrow> error + tresult"

subsection \<open>\<open>hold_off\<close>\<close>

definition HoldoffTrigger :: trigger where
  "HoldoffTrigger input_data offset trigger_parameter =
     (case param trigger_parameter ''holdoff'' of
        Inl e \<Rightarrow> Inl e
      | Inr holdoff \<Rightarrow>
          (case offset of
             None \<Rightarrow> Inl TypeError
           | Some off \<Rightarrow>
               Inr [(''xmarks'',
                     if off + num holdoff < int (length input_data)
                     then [Some (off + num holdoff)] else [])]))"

subsection \<open>\<open>rising_edge_trigger\<close> and \<open>falling_edge_trigger\<close>\<close>

text \<open>
  \<open>np.argmax\<close> of a Boolean array: the index of the first \<open>True\<close>, 0 when there is none;
  it raises \<open>ValueError\<close> on an empty array.
\<close>

definition argmax_bool :: "bool list \<Rightarrow> nat" where
  "argmax_bool bs = (if True \<in> set bs then length (takeWhile Not bs) else 0)"

definition match_edge :: "(int \<Rightarrow> bool) \<Rightarrow> trace \<Rightarrow> int option \<Rightarrow> error + int" where
  "match_edge crossed tr offset =
     (let s = py_slice_from tr offset in
      if s = [] then Inl ValueError
      else let x = int (argmax_bool (map crossed s)) in
        if x \<noteq> 0 then (case offset of None \<Rightarrow> Inl TypeError | Some off \<Rightarrow> Inr (x + off))
        else Inr x)"

definition matchRisingEdge :: "trace \<Rightarrow> int option \<Rightarrow> int \<Rightarrow> error + int" where
  "matchRisingEdge tr offset threshold = match_edge (\<lambda>v. v > threshold) tr offset"

definition matchFallingEdge :: "trace \<Rightarrow> int option \<Rightarrow> int \<Rightarrow> error + int" where
  "matchFallingEdge tr offset threshold = match_edge (\<lambda>v. v < threshold) tr offset"

definition RisingEdgeTrigger :: trigger where
  "RisingEdgeTrigger input_data offset trigger_parameter =
     (case param trigger_parameter ''threshold'' of
        Inl e \<Rightarrow> Inl e
      | Inr threshold \<Rightarrow>
          (case matchRisingEdge input_data offset (num threshold) of
             Inl e \<Rightarrow> Inl e
           | Inr x \<Rightarrow> Inr [(''xmarks'', if x \<noteq> 0 then [Some x] else [])]))"

definition FallingEdgeTrigger :: trigger where
  "FallingEdgeTrigger input_data offset trigger_parameter =
     (case param trigger_parameter ''threshold'' of
        Inl e \<Rightarrow> Inl e
      | Inr threshold \<Rightarrow>
          (case matchFallingEdge input_data offset (num threshold) of
             Inl e \<Rightarrow> Inl e
           | Inr x \<Rightarrow> Inr [(''xmarks'', if x \<noteq> 0 then [Some x] else [])]))"

subsection \<open>\<open>first_peak_trigger\<close> and \<open>last_peak_filter\<close>\<close>

text \<open>
  The loop of \<open>findFirstPeak\<close>: the last argument is the part of the trace from index
  \<open>i\<close> on, so that its head is \<open>trace[i]\<close>; the loop ends when it is empty or at \<open>break\<close>.
\<close>

fun findFirstPeak_loop ::
  "trace \<Rightarrow> int \<Rightarrow> int \<Rightarrow> bool \<Rightarrow> bool \<Rightarrow> nat \<Rightarrow> nat \<Rightarrow> trace \<Rightarrow> bool \<times> nat" where
  "findFirstPeak_loop tr minDist threshold findMax hasPeak peakPos i [] = (hasPeak, peakPos)"
| "findFirstPeak_loop tr minDist threshold findMax hasPeak peakPos i (v # rest) =
     (if findMax \<and> v > tr ! peakPos then
        (if v \<ge> threshold
         then findFirstPeak_loop tr minDist threshold findMax True i (Suc i) rest
         else findFirstPeak_loop tr minDist threshold findMax hasPeak peakPos (Suc i) rest)
      else if \<not> findMax \<and> v < tr ! peakPos then
        (if v \<le> threshold
         then findFirstPeak_loop tr minDist threshold findMax True i (Suc i) rest
         else findFirstPeak_loop tr minDist threshold findMax hasPeak peakPos (Suc i) rest)
      else if hasPeak \<and> int i - int peakPos > minDist then (hasPeak, peakPos)
      else findFirstPeak_loop tr minDist threshold findMax hasPeak peakPos (Suc i) rest)"

definition findFirstPeak :: "trace \<Rightarrow> int \<Rightarrow> int \<Rightarrow> bool \<Rightarrow> (nat \<times> int) option" where
  "findFirstPeak tr minDist threshold findMax =
     (case findFirstPeak_loop tr minDist threshold findMax False 0 0 tr of
        (hasPeak, peakPos) \<Rightarrow> if \<not> hasPeak then None else Some (peakPos, tr ! peakPos))"

definition findLastPeak :: "trace \<Rightarrow> int \<Rightarrow> int \<Rightarrow> bool \<Rightarrow> (int \<times> int) option" where
  "findLastPeak tr minDist threshold findMax =
     (case findFirstPeak (rev tr) minDist threshold findMax of
        None \<Rightarrow> None
      | Some (pos, v) \<Rightarrow> Some (int (length tr) - 1 - int pos, v))"

definition FirstPeakFilter :: trigger where
  "FirstPeakFilter input_data offset trigger_parameter =
     (case param trigger_parameter ''threshold'' of
        Inl e \<Rightarrow> Inl e
      | Inr threshold \<Rightarrow>
          (case findFirstPeak (py_slice_from input_data offset) 10 (num threshold)
                  (num threshold \<ge> 0) of
             None \<Rightarrow> Inr [(''xmarks'', [])]
           | Some (pos, v) \<Rightarrow>
               (case offset of
                  None \<Rightarrow> Inl TypeError
                | Some off \<Rightarrow> Inr [(''xmarks'', [Some (int pos + off)])])))"

definition LastPeakFilter :: trigger where
  "LastPeakFilter input_data offset trigger_parameter =
     (case param trigger_parameter ''threshold'' of
        Inl e \<Rightarrow> Inl e
      | Inr threshold \<Rightarrow>
          (case findLastPeak (py_slice_from input_data offset) 10 (num threshold)
                  (num threshold \<ge> 0) of
             None \<Rightarrow> Inr [(''xmarks'', [])]
           | Some (pos, v) \<Rightarrow> Inr [(''xmarks'', [Some pos])]))"

subsection \<open>\<open>threshold_trigger\<close>\<close>

text \<open>
  The \<open>while\<close> loop of \<open>ThresholdTrigger.process_data\<close> over the indices
  \<open>offset, offset + 1, ..., len(input_data) - 1\<close>, given as a list.  The state is the pair
  \<open>peaks\<close>; \<open>break\<close> returns it at once.  A negative index reads from the end of the
  trace, as Python does, and raises below \<open>-len(input_data)\<close>.
\<close>

fun threshold_loop ::
  "trace \<Rightarrow> int \<Rightarrow> int \<Rightarrow> int \<Rightarrow> bool \<Rightarrow> int option \<times> int option \<Rightarrow> int list
     \<Rightarrow> error + int option \<times> int option" where
  "threshold_loop input_data threshold hysteresis min_range inversed peaks [] = Inr peaks"
| "threshold_loop input_data threshold hysteresis min_range inversed peaks (i # more) =
     (case py_index input_data i of
        Inl e \<Rightarrow> Inl e
      | Inr v \<Rightarrow>
          (if \<not> inversed then
             (case fst peaks of
                None \<Rightarrow>
                  if v \<ge> threshold + hysteresis
                  then threshold_loop input_data threshold hysteresis min_range inversed
                         (Some i, snd peaks) more
                  else threshold_loop input_data threshold hysteresis min_range inversed peaks more
              | Some p0 \<Rightarrow>
                  if v \<le> threshold - hysteresis
                  then (if i - p0 \<ge> min_range then Inr (Some p0, Some i)
                        else threshold_loop input_data threshold hysteresis min_range inversed
                               (None, None) more)
                  else threshold_loop input_data threshold hysteresis min_range inversed peaks more)
           else
             (case fst peaks of
                None \<Rightarrow>
                  if v \<le> threshold - hysteresis
                  then threshold_loop input_data threshold hysteresis min_range inversed
                         (Some i, snd peaks) more
                  else threshold_loop input_data threshold hysteresis min_range inversed peaks more
              | Some p0 \<Rightarrow>
                  if v \<ge> threshold + hysteresis
                  then (if i - p0 \<ge> min_range then Inr (Some p0, Some i)
                        else threshold_loop input_data threshold hysteresis min_range inversed
                               (None, None) more)
                  else threshold_loop input_data threshold hysteresis min_range inversed peaks more)))"

definition ThresholdTrigger :: trigger where
  "ThresholdTrigger input_data offset trigger_parameter =
     (case param trigger_parameter ''threshold'' of Inl e \<Rightarrow> Inl e | Inr threshold \<Rightarrow>
      case param trigger_parameter ''hysteresis'' of Inl e \<Rightarrow> Inl e | Inr hysteresis \<Rightarrow>
      case param trigger_parameter ''min_range'' of Inl e \<Rightarrow> Inl e | Inr min_range \<Rightarrow>
      case param trigger_parameter ''inverse'' of Inl e \<Rightarrow> Inl e | Inr inversed \<Rightarrow>
      case offset of None \<Rightarrow> Inl TypeError | Some off \<Rightarrow>
      case threshold_loop input_data (num threshold) (num hysteresis) (num min_range)
             (truth inversed) (None, None) [off..int (length input_data) - 1] of
        Inl e \<Rightarrow> Inl e
      | Inr peaks \<Rightarrow>
          Inr [(''xmarks'',
                if fst peaks = None \<or> snd peaks = None then [None, None]
                else [fst peaks, snd peaks])])"

subsection \<open>The trigger loader\<close>

text \<open>
  \<open>TriggerLoader\<close> collects the trigger classes of the plugin folder; a loader is the list
  of the triggers found, by name, and \<open>get_trigger_by_name\<close> returns the first match or
  \<open>None\<close>.  \<open>builtin_triggers\<close> are the triggers of the repository (the correlation
  trigger's file name starts with an underscore, so the loader skips it).
\<close>

type_synonym trigger_loader = "(string \<times> trigger) list"

definition get_trigger_by_name :: "trigger_loader \<Rightarrow> string \<Rightarrow> trigger option" where
  "get_trigger_by_name loader trigger_name = map_of loader trigger_name"

definition builtin_triggers :: trigger_loader where
  "builtin_triggers =
     [(''rising_edge_trigger'', RisingEdgeTrigger),
      (''falling_edge_trigger'', FallingEdgeTrigger),
      (''first_peak_trigger'', FirstPeakFilter),
      (''last_peak_filter'', LastPeakFilter),
      (''threshold_trigger'', ThresholdTrigger),
      (''hold_off'', HoldoffTrigger)]"

section \<open>Filters\<close>

text \<open>
  A filter returns a dict, in which the batch aligner looks up the key \<open>data\<close>.  The
  numeric kernels of the filters (\<open>numpy.convolve\<close>, the IIR design and \<open>filtfilt\<close> of
  scipy) are library code: they are parameters of the filters that call them.
\<close>

type_synonym fresult = "(string \<times> trace) list"

type_synonym filter_plugin = "trace \<Rightarrow> params \<Rightarrow> error + fresult"

definition MovingAverageFilter :: "(trace \<Rightarrow> int \<Rightarrow> trace) \<Rightarrow> filter_plugin" where
  "MovingAverageFilter moving_average input_data filter_parameter =
     (case param filter_parameter ''enabled'' of Inl e \<Rightarrow> Inl e | Inr enabled \<Rightarrow>
      case param filter_parameter ''window_len'' of Inl e \<Rightarrow> Inl e | Inr window_len \<Rightarrow>
        Inr [(''data'',
              if num window_len > 0 \<and> truth enabled
              then moving_average input_data (num window_len) else input_data)])"

definition HighpassFilter :: "(int \<Rightarrow> int \<Rightarrow> int \<Rightarrow> trace \<Rightarrow> trace) \<Rightarrow> filter_plugin" where
  "HighpassFilter iir_highpass input_data filter_parameter =
     (case param filter_parameter ''enabled'' of Inl e \<Rightarrow> Inl e | Inr enabled \<Rightarrow>
      case param filter_parameter ''order'' of Inl e \<Rightarrow> Inl e | Inr order \<Rightarrow>
      case param filter_parameter ''sampleFrequency'' of Inl e \<Rightarrow> Inl e | Inr sample_frequency \<Rightarrow>
      case param filter_parameter ''cutoffFreq'' of Inl e \<Rightarrow> Inl e | Inr cutoff_freq \<Rightarrow>
        Inr [(''data'',
              if truth enabled
              then iir_highpass (num order) (num cutoff_freq) (num sample_frequency) input_data
              else input_data)])"

type_synonym filter_loader = "(string \<times> filter_plugin) list"

definition get_filter_by_name :: "filter_loader \<Rightarrow> string \<Rightarrow> filter_plugin option" where
  "get_filter_by_name loader filter_name = map_of loader filter_name"

text \<open>
  \<open>FilterLoader\<close> collects the filter classes of the plugin folder, as the trigger
  loader does.  \<open>example_filters\<close> holds the two filters of the repository that the
  chains of the examples below name; the other filter classes of the folder are in no
  example's chain.
\<close>

definition example_filters ::
  "(trace \<Rightarrow> int \<Rightarrow> trace) \<Rightarrow> (int \<Rightarrow> int \<Rightarrow> int \<Rightarrow> trace \<Rightarrow> trace) \<Rightarrow> filter_loader" where
  "example_filters moving_average iir_highpass =
     [(''moving_average_filter'', MovingAverageFilter moving_average),
      (''highpass_filter'', HighpassFilter iir_highpass)]"

section \<open>The array backend: \<open>NumpyArrays\<close>\<close>

text \<open>
  \<open>_npy_mm\<close> maps a channel name to its two-dimensional array, a list of rows.  One
  counter \<open>_records_written\<close> belongs to the data set, not to a channel.
\<close>

record npy =
  npy_mm :: "string \<rightharpoonup> trace list"
  records_written :: nat
  number_of_traces :: nat

definition new_NumpyArrays :: npy where
  "new_NumpyArrays = \<lparr>npy_mm = Map.empty, records_written = 0, number_of_traces = 0\<rparr>"

definition has_em :: "npy \<Rightarrow> bool" where
  "has_em s = (npy_mm s ''em'' \<noteq> None)"

definition has_power :: "npy \<Rightarrow> bool" where
  "has_power s = (npy_mm s ''power'' \<noteq> None)"

definition has_plain :: "npy \<Rightarrow> bool" where
  "has_plain s = (npy_mm s ''plain'' \<noteq> None)"

definition has_cipher :: "npy \<Rightarrow> bool" where
  "has_cipher s = (npy_mm s ''cipher'' \<noteq> None)"

definition get_number_of_traces :: "npy \<Rightarrow> nat" where
  "get_number_of_traces s = number_of_traces s"

definition set_number_of_traces :: "npy \<Rightarrow> nat \<Rightarrow> npy" where
  "set_number_of_traces s n = s\<lparr>number_of_traces := n\<rparr>"

text \<open>
  \<open>get_trace\<close> of a channel: a missing channel raises \<open>KeyError\<close>, a row past the end
  \<open>IndexError\<close>.  (For the empty channel name the source returns \<open>None\<close> instead of a
  trace; the model covers the named channels and gives that case as an error.)
\<close>

definition get_trace :: "npy \<Rightarrow> string \<Rightarrow> nat \<Rightarrow> error + trace" where
  "get_trace s trace_type trace_nr =
     (if trace_type = [] then Inl TypeError
      else case npy_mm s trace_type of
        None \<Rightarrow> Inl (KeyError trace_type)
      | Some arr \<Rightarrow> if trace_nr < length arr then Inr (arr ! trace_nr) else Inl IndexError)"

definition get_traces :: "npy \<Rightarrow> string \<Rightarrow> error + trace list" where
  "get_traces s trace_type =
     (case npy_mm s trace_type of None \<Rightarrow> Inl (KeyError trace_type) | Some arr \<Rightarrow> Inr arr)"

text \<open>
  \<open>register_data_file\<close> allocates \<open>np.ndarray(shape=(number_of_traces, length))\<close>, which
  is not initialised: \<open>memory r c\<close> is what the array holds at row \<open>r\<close> and column \<open>c\<close>.
  A negative length raises \<open>ValueError\<close>.
\<close>

definition register_data_file :: "(nat \<Rightarrow> nat \<Rightarrow> int) \<Rightarrow> npy \<Rightarrow> string \<Rightarrow> int \<Rightarrow> error + npy" where
  "register_data_file memory s trace_type len =
     (if len < 0 then Inl ValueError
      else Inr (s\<lparr>npy_mm := (npy_mm s)(trace_type \<mapsto>
                  map (\<lambda>r. map (memory r) [0..<nat len]) [0..<number_of_traces s])\<rparr>))"

text \<open>
  Assigning a one-dimensional array to a row: numpy takes an array of the row's length,
  broadcasts an array of length one, and raises \<open>ValueError\<close> for any other length.
\<close>

definition assign_row :: "trace \<Rightarrow> trace \<Rightarrow> error + trace" where
  "assign_row row trace_data =
     (if length trace_data = length row then Inr trace_data
      else if length trace_data = 1 then Inr (replicate (length row) (hd trace_data))
      else Inl ValueError)"

definition add_trace :: "npy \<Rightarrow> string \<Rightarrow> trace \<Rightarrow> error + npy" where
  "add_trace s trace_type trace_data =
     (if records_written s \<ge> number_of_traces s then Inr s
      else case npy_mm s trace_type of
        None \<Rightarrow> Inl (KeyError trace_type)
      | Some arr \<Rightarrow>
          if records_written s \<ge> length arr then Inl IndexError
          else (case assign_row (arr ! records_written s) trace_data of
                  Inl e \<Rightarrow> Inl e
                | Inr row \<Rightarrow>
                    Inr (s\<lparr>npy_mm := (npy_mm s)(trace_type \<mapsto> arr[records_written s := row]),
                           records_written := records_written s + 1\<rparr>)))"

text \<open>
  \<open>reduce_data_from_mask\<close>: the mask is padded with \<open>False\<close> to the number of rows
  (\<open>np.pad\<close> raises \<open>ValueError\<close> for a negative pad width) and selects the rows.
\<close>

definition reduce_data_from_mask :: "npy \<Rightarrow> string \<Rightarrow> trace list \<Rightarrow> bool list \<Rightarrow> error + npy" where
  "reduce_data_from_mask s trace_type input_data trace_mask =
     (if length input_data < length trace_mask then Inl ValueError
      else Inr (s\<lparr>npy_mm := (npy_mm s)(trace_type \<mapsto>
                  map fst (filter snd
                    (zip input_data
                       (trace_mask @ replicate (length input_data - length trace_mask) False))))\<rparr>))"

text \<open>
  \<open>prepare_new_tracedata\<close>: a new, empty data set with the source's number of traces.
\<close>

definition prepare_new_tracedata :: "npy \<Rightarrow> npy" where
  "prepare_new_tracedata s = set_number_of_traces new_NumpyArrays (get_number_of_traces s)"

section \<open>The structured backend: \<open>DataObject\<close>\<close>

text \<open>
  One channel of a \<open>TraceData\<close> record in recording mode.  \<open>DIRECTWRITE\<close> appends the
  bytes to the open file; \<open>MEMMAP\<close> writes row \<open>_recordsWritten\<close> of a memory map of
  \<open>nrTraces\<close> rows.  \<open>hashed\<close> is the input of the running SHA-256.
\<close>

type_synonym byte = "8 word"

datatype save_method = DIRECTWRITE | MEMMAP

record data_object =
  recording :: bool
  saveMethod :: save_method
  recordsWritten :: nat
  nrTraces :: nat
  row_length :: nat
  itemsize :: nat
  file_data :: "byte list"
  memmap_data :: "byte list list"
  hashed :: "byte list"

text \<open>
  \<open>prepareForRecord\<close>: \<open>registerEMFile\<close> and its siblings, which the structured
  backend's \<open>register_data_file\<close> calls, pass no save method, so it is \<open>DIRECTWRITE\<close>.
\<close>

definition prepareForRecord :: "nat \<Rightarrow> nat \<Rightarrow> nat \<Rightarrow> save_method \<Rightarrow> data_object" where
  "prepareForRecord n len isize method =
     \<lparr>recording = True, saveMethod = method, recordsWritten = 0, nrTraces = n,
      row_length = len, itemsize = isize, file_data = [],
      memmap_data = replicate n (replicate (len * isize) 0), hashed = []\<rparr>"

definition addTraceRaw :: "data_object \<Rightarrow> byte list \<Rightarrow> data_object" where
  "addTraceRaw d bytes =
     (if length bytes \<noteq> row_length d * itemsize d then d
      else case saveMethod d of
        DIRECTWRITE \<Rightarrow>
          d\<lparr>file_data := file_data d @ bytes, hashed := hashed d @ bytes,
            recordsWritten := recordsWritten d + 1\<rparr>
      | MEMMAP \<Rightarrow>
          if recordsWritten d \<ge> nrTraces d then d
          else d\<lparr>memmap_data := (memmap_data d)[recordsWritten d := bytes],
                 hashed := hashed d @ bytes, recordsWritten := recordsWritten d + 1\<rparr>)"

definition addTrace :: "data_object \<Rightarrow> byte list \<Rightarrow> data_object" where
  "addTrace d bytes = (if \<not> recording d then d else addTraceRaw d bytes)"

text \<open>
  \<open>ndarray.tobytes()\<close> of a row of a little-endian integer type of \<open>isize\<close> bytes, which
  \<open>addTrace\<close> applies to an array before \<open>_addTraceRaw\<close>: the bytes of each sample in
  two's complement, the least significant first.
\<close>

definition tobytes :: "nat \<Rightarrow> trace \<Rightarrow> byte list" where
  "tobytes isize row =
     concat (map (\<lambda>v. map (\<lambda>k. word_of_int (v div 256 ^ k)) [0..<isize]) row)"

section \<open>The batch aligner: \<open>BatchProcessingThread\<close>\<close>

text \<open>
  What the thread is constructed with and never changes: the two loaders, the filter
  and trigger chains in their order (an empty chain stands for an empty or absent dict),
  the channel to scan, the number of traces to process, the source data set, and the
  memory that the new arrays are allocated in.
\<close>

record batch_config =
  filters :: filter_loader
  triggers :: trigger_loader
  filter_dict :: "(string \<times> params) list"
  trigger_dict :: "(string \<times> params) list"
  tracetype :: string
  trace_count :: nat
  trace_data :: npy
  memory :: "nat \<Rightarrow> nat \<Rightarrow> int"

text \<open>What the thread updates while it runs.\<close>

record batch_state =
  region_around_peak :: "int \<times> int"
  peak_array :: "(int \<times> int) list"
  valid_traces_array :: "bool list"
  new_trace_data :: npy

definition init_state :: "batch_config \<Rightarrow> int \<times> int \<Rightarrow> batch_state" where
  "init_state c region =
     \<lparr>region_around_peak = region,
      peak_array = replicate (trace_count c) (0, 0),
      valid_traces_array = replicate (trace_count c) False,
      new_trace_data = prepare_new_tracedata (trace_data c)\<rparr>"

subsection \<open>The chains\<close>

text \<open>
  \<open>_run_triggers\<close>: the arguments \<open>offset\<close> and \<open>xmarks\<close> are the loop's variables
  \<open>current_offset\<close> and \<open>xmarks\<close>.  A \<open>KeyError\<close> of a stage, or a result without the key
  \<open>xmarks\<close>, ends the loop; any other exception leaves the function.
\<close>

fun run_triggers_loop ::
  "trigger_loader \<Rightarrow> (string \<times> params) list \<Rightarrow> trace \<Rightarrow> int option \<Rightarrow> xmarks option
     \<Rightarrow> error + xmarks option" where
  "run_triggers_loop loader [] temp_trace_data offset xm = Inr xm"
| "run_triggers_loop loader ((trigger_name, trigger_parameter) # rest) temp_trace_data offset xm =
     (case get_trigger_by_name loader trigger_name of
        None \<Rightarrow> Inl AttributeError
      | Some trigger \<Rightarrow>
          (case trigger temp_trace_data offset trigger_parameter of
             Inl (KeyError k) \<Rightarrow> Inr xm
           | Inl e \<Rightarrow> Inl e
           | Inr trigger_result \<Rightarrow>
               (case map_of trigger_result ''xmarks'' of
                  None \<Rightarrow> Inr xm
                | Some [] \<Rightarrow> Inr (Some [])
                | Some (m # ms) \<Rightarrow>
                    run_triggers_loop loader rest temp_trace_data m (Some (m # ms)))))"

definition run_triggers :: "batch_config \<Rightarrow> trace \<Rightarrow> int option \<Rightarrow> error + xmarks option" where
  "run_triggers c temp_trace_data current_offset =
     run_triggers_loop (triggers c) (trigger_dict c) temp_trace_data current_offset None"

text \<open>
  \<open>_run_filters\<close>: the arguments are the loop's variables \<open>temp_trace_data\<close> and
  \<open>modify_data\<close>.  A filter whose \<open>modify_data\<close> flag is true is skipped; only the lookup
  of \<open>data\<close> in the result is guarded, the call of \<open>process_data\<close> is not.
\<close>

fun run_filters_loop ::
  "filter_loader \<Rightarrow> (string \<times> params) list \<Rightarrow> trace \<Rightarrow> bool option
     \<Rightarrow> error + bool option \<times> trace" where
  "run_filters_loop loader [] temp_trace_data modify_data = Inr (modify_data, temp_trace_data)"
| "run_filters_loop loader ((filter_name, filter_parameter) # rest) temp_trace_data modify_data =
     (case map_of filter_parameter ''modify_data'' of
        Some flag \<Rightarrow>
          if truth flag then run_filters_loop loader rest temp_trace_data (Some True)
          else
            (case get_filter_by_name loader filter_name of
               None \<Rightarrow> Inl AttributeError
             | Some data_filter \<Rightarrow>
                 (case data_filter temp_trace_data filter_parameter of
                    Inl e \<Rightarrow> Inl e
                  | Inr filter_result \<Rightarrow>
                      (case map_of filter_result ''data'' of
                         None \<Rightarrow> run_filters_loop loader rest temp_trace_data (Some False)
                       | Some d \<Rightarrow> run_filters_loop loader rest d (Some False))))
      | None \<Rightarrow>
          (case get_filter_by_name loader filter_name of
             None \<Rightarrow> Inl AttributeError
           | Some data_filter \<Rightarrow>
               (case data_filter temp_trace_data filter_parameter of
                  Inl e \<Rightarrow> Inl e
                | Inr filter_result \<Rightarrow>
                    (case map_of filter_result ''data'' of
                       None \<Rightarrow> run_filters_loop loader rest temp_trace_data modify_data
                     | Some d \<Rightarrow> run_filters_loop loader rest d modify_data))))"

definition run_filters :: "batch_config \<Rightarrow> trace \<Rightarrow> error + bool option \<times> trace" where
  "run_filters c temp_trace_data =
     run_filters_loop (filters c) (filter_dict c) temp_trace_data None"

text \<open>
  \<open>_run_modifying_filter\<close>: the filters whose \<open>modify_data\<close> flag is true, in their
  order; nothing is guarded here.
\<close>

fun run_modifying_filter ::
  "filter_loader \<Rightarrow> (string \<times> params) list \<Rightarrow> trace \<Rightarrow> error + trace" where
  "run_modifying_filter loader [] trace = Inr trace"
| "run_modifying_filter loader ((filter_name, filter_parameter) # rest) trace =
     (case map_of filter_parameter ''modify_data'' of
        None \<Rightarrow> run_modifying_filter loader rest trace
      | Some flag \<Rightarrow>
          if \<not> truth flag then run_modifying_filter loader rest trace
          else
            (case get_filter_by_name loader filter_name of
               None \<Rightarrow> Inl AttributeError
             | Some filter_to_use \<Rightarrow>
                 (case filter_to_use trace filter_parameter of
                    Inl e \<Rightarrow> Inl e
                  | Inr filter_result \<Rightarrow>
                      (case map_of filter_result ''data'' of
                         None \<Rightarrow> Inl (KeyError ''data'')
                       | Some d \<Rightarrow> run_modifying_filter loader rest d))))"

subsection \<open>Scanning\<close>

text \<open>
  Indexed stores into the two numpy arrays of the thread; an index past the end raises.
  \<open>peak_array\<close> has the element type int64: storing a Python integer outside its range
  raises \<open>OverflowError\<close>.  Storing one mark into a row of \<open>peak_array\<close> sets both of
  its columns.
\<close>

definition in_int64 :: "int \<Rightarrow> bool" where
  "in_int64 v = (- (2 ^ 63) \<le> v \<and> v < 2 ^ 63)"

definition store_valid :: "batch_state \<Rightarrow> nat \<Rightarrow> bool \<Rightarrow> error + batch_state" where
  "store_valid b tracenr v =
     (if tracenr < length (valid_traces_array b)
      then Inr (b\<lparr>valid_traces_array := (valid_traces_array b)[tracenr := v]\<rparr>)
      else Inl IndexError)"

definition store_peak :: "batch_state \<Rightarrow> nat \<Rightarrow> int \<times> int \<Rightarrow> error + batch_state" where
  "store_peak b tracenr anchors =
     (if \<not> tracenr < length (peak_array b) then Inl IndexError
      else if \<not> (in_int64 (fst anchors) \<and> in_int64 (snd anchors)) then Inl OverflowError
      else Inr (b\<lparr>peak_array := (peak_array b)[tracenr := anchors]\<rparr>))"

definition store_valid_peak ::
  "batch_state \<Rightarrow> nat \<Rightarrow> int \<times> int \<Rightarrow> error + batch_state" where
  "store_valid_peak b tracenr anchors =
     (case store_valid b tracenr True of
        Inl e \<Rightarrow> Inl e
      | Inr b' \<Rightarrow> store_peak b' tracenr anchors)"

text \<open>The marks of a mark list are all within int64 (\<open>None\<close> entries apart).\<close>

definition marks_fit :: "xmarks option \<Rightarrow> bool" where
  "marks_fit xm =
     (case xm of
        None \<Rightarrow> True
      | Some marks \<Rightarrow> list_all (\<lambda>m. case m of None \<Rightarrow> True | Some v \<Rightarrow> in_int64 v) marks)"

text \<open>
  The classification at the end of \<open>run_filters_and_triggers\<close>, from the marks the
  trigger chain returned (\<open>None\<close> when no trigger stage stored any), the flag of the
  filter chain and the filtered buffer.
\<close>

definition classify ::
  "batch_state \<Rightarrow> nat \<Rightarrow> bool option \<Rightarrow> trace \<Rightarrow> xmarks option \<Rightarrow> error + batch_state" where
  "classify b tracenr modify_data temp_trace_data xm =
     (case xm of
        Some [Some peak_at] \<Rightarrow>
          if peak_at + snd (region_around_peak b) > int (length temp_trace_data)
             \<or> peak_at + fst (region_around_peak b) < 0
          then store_valid b tracenr False
          else store_valid_peak b tracenr (peak_at, peak_at)
      | Some [Some m1, Some m2] \<Rightarrow>
          if m2 + snd (region_around_peak b) > int (length temp_trace_data)
             \<or> m1 + fst (region_around_peak b) < 0
          then store_valid b tracenr False
          else store_valid_peak b tracenr (m1, m2)
      | Some other \<Rightarrow> store_valid b tracenr False
      | None \<Rightarrow>
          if modify_data = Some True
          then (case store_valid_peak b tracenr (0, 0) of
                  Inl e \<Rightarrow> Inl e
                | Inr b' \<Rightarrow>
                    Inr (b'\<lparr>region_around_peak := (0, int (length temp_trace_data))\<rparr>))
          else store_valid b tracenr False)"

definition run_filters_and_triggers :: "batch_config \<Rightarrow> batch_state \<Rightarrow> nat \<Rightarrow> error + batch_state" where
  "run_filters_and_triggers c b tracenr =
     (case get_trace (trace_data c) (tracetype c) tracenr of
        Inl e \<Rightarrow> Inl e
      | Inr raw \<Rightarrow>
          (case (if filter_dict c \<noteq> [] then run_filters c raw else Inr (None, raw)) of
             Inl e \<Rightarrow> Inl e
           | Inr (modify_data, temp_trace_data) \<Rightarrow>
               (case (if trigger_dict c \<noteq> [] then run_triggers c temp_trace_data (Some 0)
                      else Inr None) of
                  Inl e \<Rightarrow> Inl e
                | Inr xm \<Rightarrow> classify b tracenr modify_data temp_trace_data xm)))"

text \<open>The first loop of \<open>run\<close>, over the trace numbers.\<close>

fun scan :: "batch_config \<Rightarrow> batch_state \<Rightarrow> nat list \<Rightarrow> error + batch_state" where
  "scan c b [] = Inr b"
| "scan c b (tracenr # rest) =
     (case run_filters_and_triggers c b tracenr of
        Inl e \<Rightarrow> Inl e
      | Inr b' \<Rightarrow> scan c b' rest)"

subsection \<open>The cut geometry\<close>

text \<open>
  \<open>int(np.diff(self.peak_array)[0].max() + np.diff(self.region_around_peak)[0])\<close>:
  \<open>np.diff\<close> of the two-column array has one column, the difference of each row; the
  index \<open>[0]\<close> takes its first row, of which \<open>max\<close> is the one entry.  With no row the
  index raises.
\<close>

definition new_trace_length :: "batch_state \<Rightarrow> error + int" where
  "new_trace_length b =
     (case peak_array b of
        [] \<Rightarrow> Inl IndexError
      | (anchor1, anchor2) # rows \<Rightarrow>
          Inr ((anchor2 - anchor1) + (snd (region_around_peak b) - fst (region_around_peak b))))"

text \<open>
  The integers of that expression are int64 values of numpy, whose arithmetic wraps
  around: \<open>new_trace_length\<close> is the value the code computes where the differences and
  their sum are within int64.
\<close>

definition int64_length :: "batch_state \<Rightarrow> bool" where
  "int64_length b =
     (case peak_array b of
        [] \<Rightarrow> True
      | (anchor1, anchor2) # rows \<Rightarrow>
          in_int64 (anchor2 - anchor1)
          \<and> in_int64 (fst (region_around_peak b)) \<and> in_int64 (snd (region_around_peak b))
          \<and> in_int64 (snd (region_around_peak b) - fst (region_around_peak b))
          \<and> in_int64 ((anchor2 - anchor1)
                + (snd (region_around_peak b) - fst (region_around_peak b))))"

text \<open>
  The length the comment in \<open>run\<close> and the specification describe: the largest distance
  of the anchor pairs of the valid traces, plus the width of the cut region.
\<close>

definition valid_distances :: "batch_state \<Rightarrow> int list" where
  "valid_distances b =
     map (\<lambda>(anchors, v). snd anchors - fst anchors)
       (filter snd (zip (peak_array b) (valid_traces_array b)))"

definition spec_new_length :: "batch_state \<Rightarrow> int" where
  "spec_new_length b =
     Max (set (valid_distances b)) + (snd (region_around_peak b) - fst (region_around_peak b))"

subsection \<open>Cutting\<close>

text \<open>
  The slice \<open>[start:end]\<close> of a trace and, when it is shorter than \<open>trace_length\<close>, its
  copy resized to \<open>trace_length\<close>: \<open>resize\<close> fills the new entries with zeros.
\<close>

definition cut_trace :: "trace \<Rightarrow> int \<Rightarrow> int \<Rightarrow> trace" where
  "cut_trace tr start trace_length =
     (let cutted_trace = py_slice tr start (start + trace_length) in
      if int (length cutted_trace) < trace_length
      then cutted_trace @ replicate (nat trace_length - length cutted_trace) 0
      else cutted_trace)"

text \<open>The loop of \<open>cut_and_modify_traces\<close> over the signal channels of the source.\<close>

fun cut_channels ::
  "batch_config \<Rightarrow> nat \<Rightarrow> int \<Rightarrow> int \<Rightarrow> npy \<Rightarrow> string list \<Rightarrow> error + npy" where
  "cut_channels c tracenr start trace_length out [] = Inr out"
| "cut_channels c tracenr start trace_length out (trace_type # rest) =
     (case get_trace (trace_data c) trace_type tracenr of
        Inl e \<Rightarrow> Inl e
      | Inr tr \<Rightarrow>
          (case run_modifying_filter (filters c) (filter_dict c)
                  (cut_trace tr start trace_length) of
             Inl e \<Rightarrow> Inl e
           | Inr filtered_data \<Rightarrow>
               (case add_trace out trace_type filtered_data of
                  Inl e \<Rightarrow> Inl e
                | Inr out' \<Rightarrow> cut_channels c tracenr start trace_length out' rest)))"

definition signal_channels :: "npy \<Rightarrow> string list" where
  "signal_channels s =
     (if has_power s then [''power''] else []) @ (if has_em s then [''em''] else [])"

definition cut_and_modify_traces ::
  "batch_config \<Rightarrow> batch_state \<Rightarrow> nat \<Rightarrow> int \<Rightarrow> error + batch_state \<times> nat" where
  "cut_and_modify_traces c b tracenr trace_length =
     (if \<not> tracenr < length (valid_traces_array b) then Inl IndexError
      else if \<not> valid_traces_array b ! tracenr then Inr (b, 0)
      else if \<not> tracenr < length (peak_array b) then Inl IndexError
      else
        (case cut_channels c tracenr
                (fst (peak_array b ! tracenr) + fst (region_around_peak b)) trace_length
                (new_trace_data b) (signal_channels (trace_data c)) of
           Inl e \<Rightarrow> Inl e
         | Inr out \<Rightarrow> Inr (b\<lparr>new_trace_data := out\<rparr>, 1)))"

text \<open>
  \<open>start\<close> is the sum of an int64 entry of \<open>peak_array\<close> and a Python integer, computed
  by numpy: \<open>cut_and_modify_traces\<close> is what the code does where the two and their sum
  are within int64.
\<close>

definition int64_cut :: "batch_state \<Rightarrow> nat \<Rightarrow> bool" where
  "int64_cut b tracenr =
     (in_int64 (fst (peak_array b ! tracenr)) \<and> in_int64 (fst (region_around_peak b))
      \<and> in_int64 (fst (peak_array b ! tracenr) + fst (region_around_peak b)))"

text \<open>The second loop of \<open>run\<close>, with its counter \<open>new_trace_count\<close>.\<close>

fun cut_loop ::
  "batch_config \<Rightarrow> batch_state \<Rightarrow> int \<Rightarrow> nat \<Rightarrow> nat list \<Rightarrow> error + batch_state \<times> nat" where
  "cut_loop c b trace_length new_trace_count [] = Inr (b, new_trace_count)"
| "cut_loop c b trace_length new_trace_count (tracenr # rest) =
     (case cut_and_modify_traces c b tracenr trace_length of
        Inl e \<Rightarrow> Inl e
      | Inr (b', n) \<Rightarrow> cut_loop c b' trace_length (new_trace_count + n) rest)"

subsection \<open>Finalizing, and the whole run\<close>

text \<open>\<open>_finalize_new_traces\<close> over the plaintext and ciphertext channels of the source.\<close>

fun finalize_channels :: "batch_config \<Rightarrow> bool list \<Rightarrow> npy \<Rightarrow> string list \<Rightarrow> error + npy" where
  "finalize_channels c trace_mask out [] = Inr out"
| "finalize_channels c trace_mask out (trace_type # rest) =
     (case get_trace (trace_data c) trace_type 0 of Inl e \<Rightarrow> Inl e | Inr first \<Rightarrow>
      case register_data_file (memory c) out trace_type (int (length first)) of
        Inl e \<Rightarrow> Inl e | Inr out1 \<Rightarrow>
      case get_traces (trace_data c) trace_type of Inl e \<Rightarrow> Inl e | Inr rows \<Rightarrow>
      case reduce_data_from_mask out1 trace_type rows trace_mask of
        Inl e \<Rightarrow> Inl e | Inr out2 \<Rightarrow> finalize_channels c trace_mask out2 rest)"

definition finalize_new_traces :: "batch_config \<Rightarrow> batch_state \<Rightarrow> error + batch_state" where
  "finalize_new_traces c b =
     (case finalize_channels c (valid_traces_array b) (new_trace_data b)
             ((if has_plain (trace_data c) then [''plain''] else [])
              @ (if has_cipher (trace_data c) then [''cipher''] else [])) of
        Inl e \<Rightarrow> Inl e
      | Inr out \<Rightarrow> Inr (b\<lparr>new_trace_data := out\<rparr>))"

text \<open>
  The registration of the new signal channels in \<open>run\<close>, after the number of valid
  traces has been set in the new data set.
\<close>

definition register_signal_channels :: "batch_config \<Rightarrow> batch_state \<Rightarrow> int \<Rightarrow> error + batch_state" where
  "register_signal_channels c b len =
     (let out0 = set_number_of_traces (new_trace_data b)
                   (length (filter id (valid_traces_array b))) in
      case (if has_power (trace_data c) then register_data_file (memory c) out0 ''power'' len
            else Inr out0) of
        Inl e \<Rightarrow> Inl e
      | Inr out1 \<Rightarrow>
          (case (if has_em (trace_data c) then register_data_file (memory c) out1 ''em'' len
                 else Inr out1) of
             Inl e \<Rightarrow> Inl e
           | Inr out2 \<Rightarrow> Inr (b\<lparr>new_trace_data := out2\<rparr>)))"

text \<open>
  \<open>run\<close> without cancellation (\<open>stop\<close> is never called): scan, cut geometry,
  registration, cut, finalize.  The result carries the length computed on the way.
\<close>

definition run :: "batch_config \<Rightarrow> batch_state \<Rightarrow> error + batch_state \<times> int" where
  "run c b =
     (case scan c b [0..<trace_count c] of Inl e \<Rightarrow> Inl e | Inr b1 \<Rightarrow>
      case new_trace_length b1 of Inl e \<Rightarrow> Inl e | Inr len \<Rightarrow>
      case register_signal_channels c b1 len of Inl e \<Rightarrow> Inl e | Inr b2 \<Rightarrow>
      case cut_loop c b2 len 0 [0..<trace_count c] of Inl e \<Rightarrow> Inl e | Inr (b3, written) \<Rightarrow>
      case finalize_new_traces c b3 of Inl e \<Rightarrow> Inl e | Inr b4 \<Rightarrow> Inr (b4, len))"

section \<open>Sequences of calls and example inputs\<close>

text \<open>A sequence of \<open>add_trace\<close> calls on one data set, each with its channel and its row.\<close>

fun add_traces :: "npy \<Rightarrow> (string \<times> trace) list \<Rightarrow> error + npy" where
  "add_traces s [] = Inr s"
| "add_traces s ((trace_type, row) # calls) =
     (case add_trace s trace_type row of
        Inl e \<Rightarrow> Inl e
      | Inr s' \<Rightarrow> add_traces s' calls)"

text \<open>
  A channel as \<open>register_data_file\<close> leaves it: an array with one row per declared trace,
  each of the registered length.
\<close>

definition registered :: "npy \<Rightarrow> string \<Rightarrow> nat \<Rightarrow> bool" where
  "registered s trace_type len =
     (case npy_mm s trace_type of
        None \<Rightarrow> False
      | Some arr \<Rightarrow> length arr = number_of_traces s \<and> list_all (\<lambda>row. length row = len) arr)"

text \<open>A sequence of \<open>addTrace\<close> calls on one channel of the structured backend.\<close>

fun addTraces :: "data_object \<Rightarrow> byte list list \<Rightarrow> data_object" where
  "addTraces d [] = d"
| "addTraces d (bytes # more_bytes) = addTraces (addTrace d bytes) more_bytes"

text \<open>
  Example inputs: a source data set with the one channel \<open>em\<close>, and a thread over all of
  its traces.  The chains of these examples never reach a numeric kernel of a filter
  (a missing parameter, a disabled or a skipped filter), so the identity stands in for
  both kernels.
\<close>

definition example_source :: "trace list \<Rightarrow> npy" where
  "example_source rows =
     \<lparr>npy_mm = [''em'' \<mapsto> rows], records_written = 0, number_of_traces = length rows\<rparr>"

definition example_config ::
  "(string \<times> params) list \<Rightarrow> (string \<times> params) list \<Rightarrow> trace list \<Rightarrow> batch_config" where
  "example_config fd td rows =
     \<lparr>filters = example_filters (\<lambda>tr w. tr) (\<lambda>order cutoff fs tr. tr),
      triggers = builtin_triggers,
      filter_dict = fd, trigger_dict = td, tracetype = ''em'',
      trace_count = length rows, trace_data = example_source rows,
      memory = (\<lambda>r c. 0)\<rparr>"

definition threshold_params :: params where
  "threshold_params =
     [(''threshold'', PInt 5), (''hysteresis'', PInt 0), (''min_range'', PInt 1),
      (''inverse'', PBool False)]"

definition highpass_modifying_params :: params where
  "highpass_modifying_params =
     [(''enabled'', PBool False), (''modify_data'', PBool True), (''order'', PInt 6),
      (''sampleFrequency'', PInt 1000), (''cutoffFreq'', PInt 10)]"

text \<open>
  An example of a trigger plugin from outside the repository: it marks index 1 of a
  trace that starts with a positive sample, and otherwise returns a dict without the
  key \<open>xmarks\<close>.  \<open>plugin_config\<close> is a thread whose loader found this one trigger, with
  a highpass filter flagged \<open>modify_data\<close>.
\<close>

definition positive_start_trigger :: trigger where
  "positive_start_trigger input_data offset trigger_parameter =
     (if input_data \<noteq> [] \<and> hd input_data > 0 then Inr [(''xmarks'', [Some 1])] else Inr [])"

definition plugin_config :: "trace list \<Rightarrow> batch_config" where
  "plugin_config rows =
     (example_config [(''highpass_filter'', highpass_modifying_params)]
        [(''positive_start'', [])] rows)
       \<lparr>triggers := [(''positive_start'', positive_start_trigger)]\<rparr>"

text \<open>An example of a filter plugin whose result dict has no key \<open>data\<close>.\<close>

definition no_data_filter :: filter_plugin where
  "no_data_filter input_data filter_parameter = Inr []"

text \<open>
  A new data set declared with two traces, after \<open>register_data_file\<close> for the channels
  \<open>power\<close> and \<open>em\<close> with length two, in memory that holds zeros.
\<close>

definition two_channel_store :: npy where
  "two_channel_store =
     \<lparr>npy_mm = [''power'' \<mapsto> [[0, 0], [0, 0]], ''em'' \<mapsto> [[0, 0], [0, 0]]],
      records_written = 0, number_of_traces = 2\<rparr>"

text \<open>
  The data set of the repository's test of \<open>add_trace\<close>: three traces declared, the
  channel \<open>em\<close> registered with length five (in memory that holds zeros), and the four
  rows the test supplies.
\<close>

definition test_store :: npy where
  "test_store =
     \<lparr>npy_mm = [''em'' \<mapsto> replicate 3 (replicate 5 0)], records_written = 0,
      number_of_traces = 3\<rparr>"

definition test_rows :: "trace list" where
  "test_rows = [[1, 2, 3, 4, 5], [2, 3, 3, 4, 5], [3, 2, 3, 4, 5], [4, 2, 3, 4, 5]]"

text \<open>
  The moving average of a trace whose window averages are whole numbers, for a window not
  longer than the trace: one average per window position, as
  \<open>numpy.convolve(data, ones(w) / w, "valid")\<close> gives them.  \<open>averaging_config\<close> is
  \<open>example_config\<close> with this kernel in the moving average filter.
\<close>

definition whole_moving_average :: "trace \<Rightarrow> int \<Rightarrow> trace" where
  "whole_moving_average data w =
     map (\<lambda>i. sum_list (take (nat w) (drop i data)) div w) [0..<length data + 1 - nat w]"

definition averaging_config ::
  "(string \<times> params) list \<Rightarrow> (string \<times> params) list \<Rightarrow> trace list \<Rightarrow> batch_config" where
  "averaging_config fd td rows =
     (example_config fd td rows)
       \<lparr>filters := example_filters whole_moving_average (\<lambda>order cutoff fs tr. tr)\<rparr>"

text \<open>
  The row of a source channel that \<open>get_trace\<close> returns, and the rows that the cutting
  loop hands to \<open>add_trace\<close>, in its order: for each valid trace number and each signal
  channel of the source, the cut of that channel's trace, after the modifying filters
  (\<open>modified\<close> stands for what \<open>_run_modifying_filter\<close> returns).
\<close>

definition source_row :: "batch_config \<Rightarrow> string \<Rightarrow> nat \<Rightarrow> trace" where
  "source_row c trace_type tracenr =
     (case get_trace (trace_data c) trace_type tracenr of Inl e \<Rightarrow> [] | Inr tr \<Rightarrow> tr)"

definition cut_rows ::
  "batch_config \<Rightarrow> batch_state \<Rightarrow> (trace \<Rightarrow> trace) \<Rightarrow> int \<Rightarrow> nat list
     \<Rightarrow> (string \<times> trace) list" where
  "cut_rows c b modified trace_length tracenrs =
     concat
       (map (\<lambda>tracenr.
               map (\<lambda>trace_type.
                      (trace_type,
                       modified
                         (cut_trace (source_row c trace_type tracenr)
                            (fst (peak_array b ! tracenr) + fst (region_around_peak b))
                            trace_length)))
                 (signal_channels (trace_data c)))
          (filter (\<lambda>tracenr. valid_traces_array b ! tracenr) tracenrs))"

text \<open>The rows of one channel among such calls, in their order.\<close>

definition channel_rows :: "string \<Rightarrow> (string \<times> trace) list \<Rightarrow> trace list" where
  "channel_rows trace_type calls = map snd (filter (\<lambda>call. fst call = trace_type) calls)"

text \<open>What a test reads off the thread after scanning, and off a finished run.\<close>

definition scan_summary ::
  "batch_config \<Rightarrow> int \<times> int
     \<Rightarrow> error + (int \<times> int) list \<times> bool list \<times> (int \<times> int)" where
  "scan_summary c region =
     (case scan c (init_state c region) [0..<trace_count c] of
        Inl e \<Rightarrow> Inl e
      | Inr b \<Rightarrow> Inr (peak_array b, valid_traces_array b, region_around_peak b))"

definition run_summary ::
  "batch_config \<Rightarrow> int \<times> int \<Rightarrow> string \<Rightarrow> error + int \<times> trace list option" where
  "run_summary c region channel =
     (case run c (init_state c region) of
        Inl e \<Rightarrow> Inl e
      | Inr (b, len) \<Rightarrow> Inr (len, npy_mm (new_trace_data b) channel))"

section \<open>Results\<close>

subsection \<open>Opening\<close>

text \<open>
  C8 (as evaluated on the code): opening the string path \<open>traces.npy\<close>, which is neither a
  dict nor a path to a \<open>.meta\<close> file, raises nothing: the call returns \<open>None\<close>, whatever the
  two constructors do.  Only an argument that is neither a string, a path nor a dict
  raises \<open>ValueError\<close>.
\<close>

theorem open_trace_data_npy_path_returns_None:
  "open_trace_data d15 npy (PyStr ''traces.npy'') = Inr None
   \<and> open_trace_data d15 npy (PyStr ''/data/run1/traces.txt'') = Inr None
   \<and> open_trace_data d15 npy PyOther = Inl ValueError"
  by (simp add: open_trace_data_def splitext_ext_def basename_def)

subsection \<open>Triggers\<close>

text \<open>
  C4 (as evaluated on the code): on a trace that never reaches the threshold,
  \<open>threshold_trigger\<close> finds no mark and returns the list \<open>[None, None]\<close>, not the empty
  list.  The chain's test for an empty list then does not stop the chain: the next
  stage is called with the offset \<open>None\<close>, and \<open>hold_off\<close> raises \<open>TypeError\<close>, which
  ends the whole run.
\<close>

theorem threshold_trigger_returns_None_placeholders:
  "ThresholdTrigger [0, 0, 0] (Some 0) threshold_params = Inr [(''xmarks'', [None, None])]
   \<and> run_triggers
         (example_config []
            [(''threshold_trigger'', threshold_params), (''hold_off'', [(''holdoff'', PInt 1)])]
            [[0, 0, 0]])
         [0, 0, 0] (Some 0) = Inl TypeError
   \<and> run_summary
         (example_config []
            [(''threshold_trigger'', threshold_params), (''hold_off'', [(''holdoff'', PInt 1)])]
            [[0, 0, 0]])
         (-1, 1) ''em'' = Inl TypeError"
  by code_simp

subsection \<open>Scanning\<close>

text \<open>
  \<open>run_filters_and_triggers\<close> runs a chain only when its dict is not empty; an empty
  chain gives the same values, so the function is the three steps in a row.
\<close>

lemma run_filters_and_triggers_chain:
  "run_filters_and_triggers c b tracenr =
     (case get_trace (trace_data c) (tracetype c) tracenr of
        Inl e \<Rightarrow> Inl e
      | Inr raw \<Rightarrow>
          (case run_filters c raw of
             Inl e \<Rightarrow> Inl e
           | Inr (modify_data, temp_trace_data) \<Rightarrow>
               (case run_triggers c temp_trace_data (Some 0) of
                  Inl e \<Rightarrow> Inl e
                | Inr xm \<Rightarrow> classify b tracenr modify_data temp_trace_data xm)))"
  by (cases "filter_dict c"; cases "trigger_dict c")
     (simp_all add: run_filters_and_triggers_def run_filters_def run_triggers_def
        split: sum.splits)

lemma scanned:
  assumes "get_trace (trace_data c) (tracetype c) tracenr = Inr raw"
    and "run_filters c raw = Inr (modify_data, temp)"
    and "run_triggers c temp (Some 0) = Inr xm"
  shows "run_filters_and_triggers c b tracenr = classify b tracenr modify_data temp xm"
  using assms by (simp add: run_filters_and_triggers_chain)

text \<open>
  C5, as stated, fails.  The bounds are checked against the buffer the triggers ran on:
  a moving average over two samples shortens a trace of six samples to five, and a mark
  at 4 with the cut region \<open>[-1, 2]\<close> lies within the trace (\<open>4 - 1 \<ge> 0\<close>, \<open>4 + 2 \<le> 6\<close>)
  but is marked invalid.  And a mark outside int64 that passes the check cannot be
  stored: with \<open>hold_off\<close> at \<open>-2^63 - 1\<close> and the region \<open>[2^63 + 1, 2^63 + 2]\<close> the
  store into \<open>peak_array\<close> raises.
\<close>

theorem scanning_one_mark_checked_on_filtered_trace_counterexample:
  "run_filters
     (averaging_config
        [(''moving_average_filter'', [(''enabled'', PBool True), (''window_len'', PInt 2)])]
        [(''hold_off'', [(''holdoff'', PInt 4)])] [[0, 0, 0, 0, 0, 0]])
     [0, 0, 0, 0, 0, 0] = Inr (None, [0, 0, 0, 0, 0])
   \<and> run_triggers
         (averaging_config
            [(''moving_average_filter'', [(''enabled'', PBool True), (''window_len'', PInt 2)])]
            [(''hold_off'', [(''holdoff'', PInt 4)])] [[0, 0, 0, 0, 0, 0]])
         [0, 0, 0, 0, 0] (Some 0) = Inr (Some [Some 4])
   \<and> (0::int) \<le> 4 + (-1) \<and> (4::int) + 2 \<le> int (length [0, 0, 0, 0, 0, 0::int])
   \<and> scan_summary
         (averaging_config
            [(''moving_average_filter'', [(''enabled'', PBool True), (''window_len'', PInt 2)])]
            [(''hold_off'', [(''holdoff'', PInt 4)])] [[0, 0, 0, 0, 0, 0]])
         (-1, 2) = Inr ([(0, 0)], [False], (-1, 2))
   \<and> run_triggers
         (example_config [] [(''hold_off'', [(''holdoff'', PInt (-9223372036854775809))])]
            [[0, 0, 0]])
         [0, 0, 0] (Some 0) = Inr (Some [Some (-9223372036854775809)])
   \<and> scan_summary
         (example_config [] [(''hold_off'', [(''holdoff'', PInt (-9223372036854775809))])]
            [[0, 0, 0]])
         (9223372036854775809, 9223372036854775810) = Inl OverflowError"
  by code_simp

text \<open>
  C5, amended: when the trigger chain returns exactly one mark \<open>m\<close> within int64, with
  \<open>m + region_start \<ge> 0\<close> and \<open>m + region_end\<close> at most the length of the filtered trace
  the triggers ran on, scanning marks the trace valid and stores \<open>(m, m)\<close> as its anchor
  pair; nothing else changes.
\<close>

theorem scanning_one_mark_in_bounds_is_valid:
  assumes "get_trace (trace_data c) (tracetype c) tracenr = Inr raw"
    and "run_filters c raw = Inr (modify_data, temp)"
    and "run_triggers c temp (Some 0) = Inr (Some [Some m])"
    and "m + fst (region_around_peak b) \<ge> 0"
    and "m + snd (region_around_peak b) \<le> int (length temp)"
    and "in_int64 m"
    and "tracenr < length (valid_traces_array b)"
    and "tracenr < length (peak_array b)"
  shows "run_filters_and_triggers c b tracenr =
           Inr (b\<lparr>valid_traces_array := (valid_traces_array b)[tracenr := True],
                  peak_array := (peak_array b)[tracenr := (m, m)]\<rparr>)"
  using assms
  by (simp add: scanned classify_def store_valid_peak_def store_valid_def store_peak_def)

theorem scanning_one_mark_in_bounds_is_valid_witness:
  "get_trace
     (trace_data (example_config [] [(''hold_off'', [(''holdoff'', PInt 2)])] [[0, 0, 0, 0, 0, 0]]))
     (tracetype (example_config [] [(''hold_off'', [(''holdoff'', PInt 2)])] [[0, 0, 0, 0, 0, 0]]))
     0 = Inr [0, 0, 0, 0, 0, 0]
   \<and> run_filters (example_config [] [(''hold_off'', [(''holdoff'', PInt 2)])] [[0, 0, 0, 0, 0, 0]])
         [0, 0, 0, 0, 0, 0] = Inr (None, [0, 0, 0, 0, 0, 0])
   \<and> run_triggers (example_config [] [(''hold_off'', [(''holdoff'', PInt 2)])] [[0, 0, 0, 0, 0, 0]])
         [0, 0, 0, 0, 0, 0] (Some 0) = Inr (Some [Some 2])
   \<and> in_int64 2
   \<and> scan_summary (example_config [] [(''hold_off'', [(''holdoff'', PInt 2)])] [[0, 0, 0, 0, 0, 0]])
         (-1, 1) = Inr ([(2, 2)], [True], (-1, 1))"
proof -
  let ?c = "example_config [] [(''hold_off'', [(''holdoff'', PInt 2)])] [[0, 0, 0, 0, 0, 0]]"
  let ?b = "init_state ?c (-1, 1)"
  have h1: "get_trace (trace_data ?c) (tracetype ?c) 0 = Inr [0, 0, 0, 0, 0, 0]" by code_simp
  have h2: "run_filters ?c [0, 0, 0, 0, 0, 0] = Inr (None, [0, 0, 0, 0, 0, 0])" by code_simp
  have h3: "run_triggers ?c [0, 0, 0, 0, 0, 0] (Some 0) = Inr (Some [Some 2])" by code_simp
  have h4: "2 + fst (region_around_peak ?b) \<ge> 0" by code_simp
  have h5: "2 + snd (region_around_peak ?b) \<le> int (length [0, 0, 0, 0, 0, 0::int])"
    by code_simp
  have h6: "in_int64 2" by (simp add: in_int64_def)
  have h7: "0 < length (valid_traces_array ?b)" by code_simp
  have h8: "0 < length (peak_array ?b)" by code_simp
  have tc: "[0..<trace_count ?c] = [0]" by code_simp
  have st: "peak_array ?b = [(0, 0)]" "valid_traces_array ?b = [False]"
    "region_around_peak ?b = (-1, 1)" by code_simp+
  from scanning_one_mark_in_bounds_is_valid [OF h1 h2 h3 h4 h5 h6 h7 h8]
  have "scan_summary ?c (-1, 1) = Inr ([(2, 2)], [True], (-1, 1))"
    by (simp add: scan_summary_def tc st)
  with h1 h2 h3 h6 show ?thesis by blast
qed

lemma run_triggers_no_trigger: "trigger_dict c = [] \<Longrightarrow> run_triggers c temp offset = Inr None"
  by (simp add: run_triggers_def)

text \<open>
  C3, as stated, fails: with a modifying highpass filter and a \<open>hold_off\<close> trigger whose
  delay lies past the end of the trace, the trigger chain returns the empty mark list,
  and scanning marks the trace invalid and leaves the cut region \<open>[-1, 1]\<close> as it is.
\<close>

theorem whole_trace_fallback_needs_no_mark_list_counterexample:
  "run_filters
     (example_config [(''highpass_filter'', highpass_modifying_params)]
        [(''hold_off'', [(''holdoff'', PInt 7)])] [[0, 0, 0]])
     [0, 0, 0] = Inr (Some True, [0, 0, 0])
   \<and> run_triggers
         (example_config [(''highpass_filter'', highpass_modifying_params)]
            [(''hold_off'', [(''holdoff'', PInt 7)])] [[0, 0, 0]])
         [0, 0, 0] (Some 0) = Inr (Some [])
   \<and> scan_summary
         (example_config [(''highpass_filter'', highpass_modifying_params)]
            [(''hold_off'', [(''holdoff'', PInt 7)])] [[0, 0, 0]])
         (-1, 1) = Inr ([(0, 0)], [False], (-1, 1))"
  by code_simp

text \<open>
  C3, amended: when the filter chain reports a modifying filter and the trigger chain
  stored no mark list at all (\<open>xmarks\<close> is still \<open>None\<close>: so it is when no trigger is
  configured), scanning marks the trace valid with the anchor pair \<open>(0, 0)\<close> and
  overwrites the cut region with \<open>[0, length of the filtered trace]\<close>.  When the trigger
  chain returns the empty mark list, the trace is invalid and nothing else changes.
\<close>

theorem whole_trace_fallback_without_mark_list:
  assumes "get_trace (trace_data c) (tracetype c) tracenr = Inr raw"
    and "run_filters c raw = Inr (Some True, temp)"
    and "tracenr < length (valid_traces_array b)"
    and "tracenr < length (peak_array b)"
  shows "(trigger_dict c = [] \<longrightarrow> run_triggers c temp (Some 0) = Inr None)
       \<and> (run_triggers c temp (Some 0) = Inr None \<longrightarrow>
            run_filters_and_triggers c b tracenr =
              Inr (b\<lparr>valid_traces_array := (valid_traces_array b)[tracenr := True],
                     peak_array := (peak_array b)[tracenr := (0, 0)],
                     region_around_peak := (0, int (length temp))\<rparr>))
       \<and> (run_triggers c temp (Some 0) = Inr (Some []) \<longrightarrow>
            run_filters_and_triggers c b tracenr =
              Inr (b\<lparr>valid_traces_array := (valid_traces_array b)[tracenr := False]\<rparr>))"
  using assms
  by (auto simp add: scanned classify_def store_valid_peak_def store_valid_def store_peak_def
        in_int64_def run_triggers_no_trigger)

theorem whole_trace_fallback_without_mark_list_witness:
  "trigger_dict (example_config [(''highpass_filter'', highpass_modifying_params)] [] [[1, 2, 3]]) = []
   \<and> run_filters (example_config [(''highpass_filter'', highpass_modifying_params)] [] [[1, 2, 3]])
         [1, 2, 3] = Inr (Some True, [1, 2, 3])
   \<and> scan_summary (example_config [(''highpass_filter'', highpass_modifying_params)] [] [[1, 2, 3]])
         (-1, 1) = Inr ([(0, 0)], [True], (0, 3))
   \<and> run_triggers
         (example_config [(''highpass_filter'', highpass_modifying_params)]
            [(''hold_off'', [(''holdoff'', PInt 7)])] [[1, 2, 3]])
         [1, 2, 3] (Some 0) = Inr (Some [])
   \<and> scan_summary
         (example_config [(''highpass_filter'', highpass_modifying_params)]
            [(''hold_off'', [(''holdoff'', PInt 7)])] [[1, 2, 3]])
         (-1, 1) = Inr ([(0, 0)], [False], (-1, 1))"
proof -
  let ?c = "example_config [(''highpass_filter'', highpass_modifying_params)] [] [[1, 2, 3]]"
  let ?b = "init_state ?c (-1, 1)"
  have h0: "trigger_dict ?c = []" by code_simp
  have h1: "get_trace (trace_data ?c) (tracetype ?c) 0 = Inr [1, 2, 3]" by code_simp
  have h2: "run_filters ?c [1, 2, 3] = Inr (Some True, [1, 2, 3])" by code_simp
  have h3: "0 < length (valid_traces_array ?b)" by code_simp
  have h4: "0 < length (peak_array ?b)" by code_simp
  have tc: "[0..<trace_count ?c] = [0]" by code_simp
  have st: "peak_array ?b = [(0, 0)]" "valid_traces_array ?b = [False]" by code_simp+
  from whole_trace_fallback_without_mark_list [OF h1 h2 h3 h4] h0
  have first: "scan_summary ?c (-1, 1) = Inr ([(0, 0)], [True], (0, 3))"
    by (simp add: scan_summary_def tc st)
  let ?d = "example_config [(''highpass_filter'', highpass_modifying_params)]
              [(''hold_off'', [(''holdoff'', PInt 7)])] [[1, 2, 3]]"
  let ?e = "init_state ?d (-1, 1)"
  have g1: "get_trace (trace_data ?d) (tracetype ?d) 0 = Inr [1, 2, 3]" by code_simp
  have g2: "run_filters ?d [1, 2, 3] = Inr (Some True, [1, 2, 3])" by code_simp
  have g3: "0 < length (valid_traces_array ?e)" by code_simp
  have g4: "0 < length (peak_array ?e)" by code_simp
  have g5: "run_triggers ?d [1, 2, 3] (Some 0) = Inr (Some [])" by code_simp
  have td: "[0..<trace_count ?d] = [0]" by code_simp
  have sd: "peak_array ?e = [(0, 0)]" "valid_traces_array ?e = [False]"
    "region_around_peak ?e = (-1, 1)" by code_simp+
  from whole_trace_fallback_without_mark_list [OF g1 g2 g3 g4] g5
  have second: "scan_summary ?d (-1, 1) = Inr ([(0, 0)], [False], (-1, 1))"
    by (simp add: scan_summary_def td sd)
  from h0 h2 first g5 second show ?thesis by blast
qed

text \<open>
  C10: the whole-trace fallback writes into the thread's one \<open>region_around_peak\<close>.  A
  scanning step changes the region exactly when it takes the fallback (no mark list,
  modifying filter), and then to \<open>[0, length of the filtered trace]\<close>; every other
  branch leaves it as it was.  The traces after it are scanned in the state the step
  left, so after a fallback the bounds check of a one-mark trace, the length
  computation and the start of a cut (\<open>anchor1 + 0\<close>) read the overwritten values.
\<close>

theorem fallback_overwrites_shared_region:
  assumes "get_trace (trace_data c) (tracetype c) tracenr = Inr raw"
    and "run_filters c raw = Inr (modify_data, temp)"
    and "run_triggers c temp (Some 0) = Inr xm"
    and "run_filters_and_triggers c b tracenr = Inr b'"
  shows "region_around_peak b' =
           (if xm = None \<and> modify_data = Some True then (0, int (length temp))
            else region_around_peak b)
       \<and> scan c b (tracenr # later) = scan c b' later
       \<and> (xm = None \<and> modify_data = Some True \<longrightarrow>
            classify b' tracenr2 modify_data2 temp2 (Some [Some m]) =
              (if m + int (length temp) > int (length temp2) \<or> m < 0
               then store_valid b' tracenr2 False
               else store_valid_peak b' tracenr2 (m, m))
            \<and> new_trace_length b' =
                Inr (snd (hd (peak_array b')) - fst (hd (peak_array b')) + int (length temp))
            \<and> (tracenr2 < length (valid_traces_array b') \<and> tracenr2 < length (peak_array b')
                 \<and> valid_traces_array b' ! tracenr2 \<longrightarrow>
                cut_and_modify_traces c b' tracenr2 len =
                  (case cut_channels c tracenr2 (fst (peak_array b' ! tracenr2)) len
                          (new_trace_data b') (signal_channels (trace_data c)) of
                     Inl e \<Rightarrow> Inl e
                   | Inr out \<Rightarrow> Inr (b'\<lparr>new_trace_data := out\<rparr>, 1))))"
proof -
  from assms have cl: "classify b tracenr modify_data temp xm = Inr b'"
    by (simp add: scanned)
  have region: "region_around_peak b' =
      (if xm = None \<and> modify_data = Some True then (0, int (length temp))
       else region_around_peak b)"
    using cl
    by (auto simp add: classify_def store_valid_peak_def store_valid_def store_peak_def
          split: option.splits list.splits if_splits sum.splits)
  have next_trace: "scan c b (tracenr # later) = scan c b' later"
    using assms(4) by simp
  have nonempty: "xm = None \<and> modify_data = Some True \<Longrightarrow> peak_array b' \<noteq> []"
    using cl
    by (auto simp add: classify_def store_valid_peak_def store_valid_def store_peak_def
          split: option.splits list.splits if_splits sum.splits)
  show ?thesis
  proof (intro conjI impI)
    show "region_around_peak b' =
      (if xm = None \<and> modify_data = Some True then (0, int (length temp))
       else region_around_peak b)" by (rule region)
    show "scan c b (tracenr # later) = scan c b' later" by (rule next_trace)
  next
    assume f: "xm = None \<and> modify_data = Some True"
    with region have r: "region_around_peak b' = (0, int (length temp))" by simp
    show "classify b' tracenr2 modify_data2 temp2 (Some [Some m]) =
              (if m + int (length temp) > int (length temp2) \<or> m < 0
               then store_valid b' tracenr2 False
               else store_valid_peak b' tracenr2 (m, m))"
      by (simp add: classify_def r)
    from nonempty [OF f] show "new_trace_length b' =
                Inr (snd (hd (peak_array b')) - fst (hd (peak_array b')) + int (length temp))"
      by (cases "peak_array b'") (auto simp add: new_trace_length_def r)
  next
    assume f: "xm = None \<and> modify_data = Some True"
      and v: "tracenr2 < length (valid_traces_array b') \<and> tracenr2 < length (peak_array b')
                 \<and> valid_traces_array b' ! tracenr2"
    from f region have r: "region_around_peak b' = (0, int (length temp))" by simp
    from v show "cut_and_modify_traces c b' tracenr2 len =
                  (case cut_channels c tracenr2 (fst (peak_array b' ! tracenr2)) len
                          (new_trace_data b') (signal_channels (trace_data c)) of
                     Inl e \<Rightarrow> Inl e
                   | Inr out \<Rightarrow> Inr (b'\<lparr>new_trace_data := out\<rparr>, 1))"
      by (simp add: cut_and_modify_traces_def r)
  qed
qed

theorem fallback_overwrites_shared_region_witness:
  "run_filters (plugin_config [[0, 1, 2, 3], [5, 6, 7, 8]]) [0, 1, 2, 3] = Inr (Some True, [0, 1, 2, 3])
   \<and> run_triggers (plugin_config [[0, 1, 2, 3], [5, 6, 7, 8]]) [0, 1, 2, 3] (Some 0) = Inr None
   \<and> run_triggers (plugin_config [[0, 1, 2, 3], [5, 6, 7, 8]]) [5, 6, 7, 8] (Some 0) = Inr (Some [Some 1])
   \<and> scan_summary (plugin_config [[0, 1, 2, 3], [5, 6, 7, 8]]) (-1, 2)
         = Inr ([(0, 0), (0, 0)], [True, False], (0, 4))
   \<and> scan_summary (plugin_config [[5, 6, 7, 8]]) (-1, 2) = Inr ([(1, 1)], [True], (-1, 2))"
proof -
  let ?c = "plugin_config [[0, 1, 2, 3], [5, 6, 7, 8]]"
  let ?b = "init_state ?c (-1, 2)"
  let ?b' = "?b\<lparr>valid_traces_array := [True, False], peak_array := [(0, 0), (0, 0)],
                 region_around_peak := (0, 4)\<rparr>"
  have h1: "get_trace (trace_data ?c) (tracetype ?c) 0 = Inr [0, 1, 2, 3]" by code_simp
  have h2: "run_filters ?c [0, 1, 2, 3] = Inr (Some True, [0, 1, 2, 3])" by code_simp
  have h3: "run_triggers ?c [0, 1, 2, 3] (Some 0) = Inr None" by code_simp
  have st: "peak_array ?b = [(0, 0), (0, 0)]" "valid_traces_array ?b = [False, False]"
    by code_simp+
  have h4: "run_filters_and_triggers ?c ?b 0 = Inr ?b'"
    by (simp add: scanned [OF h1 h2 h3] classify_def store_valid_peak_def store_valid_def
          store_peak_def in_int64_def st)
  have g1: "get_trace (trace_data ?c) (tracetype ?c) 1 = Inr [5, 6, 7, 8]" by code_simp
  have g2: "run_filters ?c [5, 6, 7, 8] = Inr (Some True, [5, 6, 7, 8])" by code_simp
  have g3: "run_triggers ?c [5, 6, 7, 8] (Some 0) = Inr (Some [Some 1])" by code_simp
  have tc: "[0..<trace_count ?c] = [0, 1]" by code_simp
  note inst = fallback_overwrites_shared_region [OF h1 h2 h3 h4,
      where later = "[1]" and ?tracenr2.0 = 1 and ?modify_data2.0 = "Some True"
        and ?temp2.0 = "[5, 6, 7, 8]" and m = 1]
  from inst have sc: "scan ?c ?b [0, 1] = scan ?c ?b' [1]" by blast
  from inst have cl: "classify ?b' 1 (Some True) [5, 6, 7, 8] (Some [Some 1]) = store_valid ?b' 1 False"
    by simp
  have "run_filters_and_triggers ?c ?b' 1 = store_valid ?b' 1 False"
    unfolding scanned [OF g1 g2 g3] by (rule cl)
  then have "scan ?c ?b' [1] = Inr (?b'\<lparr>valid_traces_array := [True, False]\<rparr>)"
    by (simp add: store_valid_def)
  with sc have "scan_summary ?c (-1, 2) = Inr ([(0, 0), (0, 0)], [True, False], (0, 4))"
    by (simp add: scan_summary_def tc)
  moreover have "scan_summary (plugin_config [[5, 6, 7, 8]]) (-1, 2) = Inr ([(1, 1)], [True], (-1, 2))"
    by code_simp
  ultimately show ?thesis using h2 h3 g3 by blast
qed

subsection \<open>Errors in the chains\<close>

lemma run_triggers_loop_no_KeyError:
  "run_triggers_loop loader chain temp offset xm \<noteq> Inl (KeyError k)"
proof (induction chain arbitrary: offset xm)
  case Nil
  show ?case by simp
next
  case (Cons stage chain)
  obtain name ps where stage: "stage = (name, ps)" by (cases stage)
  show ?case
    using Cons.IH
    by (simp add: stage split: option.splits sum.splits error.splits list.splits)
qed

lemma classify_returns:
  assumes "tracenr < length (valid_traces_array b)" and "tracenr < length (peak_array b)"
    and "marks_fit xm"
  shows "\<exists>b'. classify b tracenr modify_data temp xm = Inr b'"
  using assms
  by (auto simp add: classify_def store_valid_peak_def store_valid_def store_peak_def
        marks_fit_def in_int64_def split: option.splits list.splits)

lemma classify_no_KeyError: "classify b tracenr modify_data temp xm \<noteq> Inl (KeyError k)"
  by (auto simp add: classify_def store_valid_peak_def store_valid_def store_peak_def
        split: option.splits list.splits if_splits sum.splits)

lemma classify_returns_or_overflows:
  assumes "tracenr < length (valid_traces_array b)" and "tracenr < length (peak_array b)"
  shows "(\<exists>b'. classify b tracenr modify_data temp xm = Inr b')
         \<or> classify b tracenr modify_data temp xm = Inl OverflowError"
  using assms
  by (auto simp add: classify_def store_valid_peak_def store_valid_def store_peak_def
        split: option.splits list.splits)

text \<open>
  C2, as stated, fails: a moving average filter configured without its \<open>window_len\<close>
  parameter raises \<open>KeyError\<close> from \<open>process_data\<close>; the filter chain does not catch it,
  and the error ends the whole run at the first trace.
\<close>

theorem key_errors_in_the_chains_counterexample:
  "MovingAverageFilter (\<lambda>tr w. tr) [0, 0, 0] [(''enabled'', PBool True)]
     = Inl (KeyError ''window_len'')
   \<and> run_summary
         (example_config [(''moving_average_filter'', [(''enabled'', PBool True)])]
            [(''hold_off'', [(''holdoff'', PInt 1)])] [[0, 0, 0], [1, 1, 1]])
         (-1, 1) ''em'' = Inl (KeyError ''window_len'')"
  by code_simp

text \<open>
  C2, amended.  Trigger chain: no \<open>KeyError\<close> leaves \<open>_run_triggers\<close>; a stage that
  raises one, or whose result has no key \<open>xmarks\<close>, ends the chain, which returns the
  marks of the stages before it; with the chain's result the trace is classified (no
  \<open>KeyError\<close> leaves the step once the filters have run, and with marks within int64 the
  step returns) and the scan goes on with the next trace.  The one exception the
  classification can raise is the \<open>OverflowError\<close> of storing a mark outside int64.
  Filter chain: an analysis stage whose result has no key \<open>data\<close> is skipped and the
  data stay as they were; an exception that \<open>process_data\<close> of an analysis stage raises,
  a \<open>KeyError\<close> for a missing parameter among them, leaves the chain, and the scan ends
  with it.
\<close>

theorem key_errors_in_the_chains:
  "run_triggers c temp offset \<noteq> Inl (KeyError k)
   \<and> (get_trigger_by_name tloader tname = Some trg \<and> trg temp offset tps = Inl (KeyError k)
        \<longrightarrow> run_triggers_loop tloader ((tname, tps) # trest) temp offset xm = Inr xm)
   \<and> (get_trigger_by_name tloader tname = Some trg \<and> trg temp offset tps = Inr tres
        \<and> map_of tres ''xmarks'' = None
        \<longrightarrow> run_triggers_loop tloader ((tname, tps) # trest) temp offset xm = Inr xm)
   \<and> (get_trace (trace_data c) (tracetype c) tracenr = Inr raw
        \<and> run_filters c raw = Inr (modify_data, temp)
        \<longrightarrow> run_filters_and_triggers c b tracenr \<noteq> Inl (KeyError k))
   \<and> (get_trace (trace_data c) (tracetype c) tracenr = Inr raw
        \<and> run_filters c raw = Inr (modify_data, temp)
        \<and> tracenr < length (valid_traces_array b) \<and> tracenr < length (peak_array b)
        \<and> run_triggers c temp (Some 0) = Inr xm0 \<and> marks_fit xm0
        \<longrightarrow> (\<exists>b'. run_filters_and_triggers c b tracenr = Inr b'
                  \<and> scan c b (tracenr # later) = scan c b' later))
   \<and> (get_trace (trace_data c) (tracetype c) tracenr = Inr raw
        \<and> run_filters c raw = Inr (modify_data, temp)
        \<and> tracenr < length (valid_traces_array b) \<and> tracenr < length (peak_array b)
        \<and> run_triggers c temp (Some 0) = Inr xm0
        \<longrightarrow> (\<exists>b'. run_filters_and_triggers c b tracenr = Inr b'
                  \<and> scan c b (tracenr # later) = scan c b' later)
            \<or> run_filters_and_triggers c b tracenr = Inl OverflowError)
   \<and> (get_filter_by_name floader fname = Some flt
        \<and> (case map_of fps ''modify_data'' of None \<Rightarrow> True | Some flag \<Rightarrow> \<not> truth flag)
        \<and> flt temp fps = Inr res \<and> map_of res ''data'' = None
        \<longrightarrow> run_filters_loop floader ((fname, fps) # frest) temp md
              = run_filters_loop floader frest temp
                  (case map_of fps ''modify_data'' of None \<Rightarrow> md | Some flag \<Rightarrow> Some False))
   \<and> (get_filter_by_name floader fname = Some flt
        \<and> (case map_of fps ''modify_data'' of None \<Rightarrow> True | Some flag \<Rightarrow> \<not> truth flag)
        \<and> flt temp fps = Inl e
        \<longrightarrow> run_filters_loop floader ((fname, fps) # frest) temp md = Inl e)
   \<and> (get_trace (trace_data c) (tracetype c) tracenr = Inr raw \<and> run_filters c raw = Inl e
        \<longrightarrow> scan c b (tracenr # later) = Inl e)"
proof (intro conjI impI)
  show "run_triggers c temp offset \<noteq> Inl (KeyError k)"
    by (simp add: run_triggers_def run_triggers_loop_no_KeyError)
next
  assume "get_trigger_by_name tloader tname = Some trg \<and> trg temp offset tps = Inl (KeyError k)"
  then show "run_triggers_loop tloader ((tname, tps) # trest) temp offset xm = Inr xm"
    by simp
next
  assume "get_trigger_by_name tloader tname = Some trg \<and> trg temp offset tps = Inr tres
        \<and> map_of tres ''xmarks'' = None"
  then show "run_triggers_loop tloader ((tname, tps) # trest) temp offset xm = Inr xm"
    by simp
next
  assume h: "get_trace (trace_data c) (tracetype c) tracenr = Inr raw
        \<and> run_filters c raw = Inr (modify_data, temp)"
  show "run_filters_and_triggers c b tracenr \<noteq> Inl (KeyError k)"
  proof (cases "run_triggers c temp (Some 0)")
    case (Inl e)
    with h have "run_filters_and_triggers c b tracenr = Inl e"
      by (simp add: run_filters_and_triggers_chain)
    moreover from Inl have "e \<noteq> KeyError k"
      using run_triggers_loop_no_KeyError [of "triggers c" "trigger_dict c" temp "Some 0" None k]
      by (auto simp add: run_triggers_def)
    ultimately show ?thesis by simp
  next
    case (Inr xm1)
    with h have "run_filters_and_triggers c b tracenr = classify b tracenr modify_data temp xm1"
      by (simp add: scanned)
    then show ?thesis by (simp add: classify_no_KeyError)
  qed
next
  assume h: "get_trace (trace_data c) (tracetype c) tracenr = Inr raw
        \<and> run_filters c raw = Inr (modify_data, temp)
        \<and> tracenr < length (valid_traces_array b) \<and> tracenr < length (peak_array b)
        \<and> run_triggers c temp (Some 0) = Inr xm0 \<and> marks_fit xm0"
  then have step: "run_filters_and_triggers c b tracenr = classify b tracenr modify_data temp xm0"
    by (simp add: scanned)
  from h obtain b' where "classify b tracenr modify_data temp xm0 = Inr b'"
    using classify_returns by blast
  with step show "\<exists>b'. run_filters_and_triggers c b tracenr = Inr b'
                  \<and> scan c b (tracenr # later) = scan c b' later"
    by simp
next
  assume h: "get_trace (trace_data c) (tracetype c) tracenr = Inr raw
        \<and> run_filters c raw = Inr (modify_data, temp)
        \<and> tracenr < length (valid_traces_array b) \<and> tracenr < length (peak_array b)
        \<and> run_triggers c temp (Some 0) = Inr xm0"
  then have step: "run_filters_and_triggers c b tracenr = classify b tracenr modify_data temp xm0"
    by (simp add: scanned)
  from h have "(\<exists>b'. classify b tracenr modify_data temp xm0 = Inr b')
         \<or> classify b tracenr modify_data temp xm0 = Inl OverflowError"
    by (simp add: classify_returns_or_overflows)
  with step show "(\<exists>b'. run_filters_and_triggers c b tracenr = Inr b'
                  \<and> scan c b (tracenr # later) = scan c b' later)
            \<or> run_filters_and_triggers c b tracenr = Inl OverflowError"
    by auto
next
  assume "get_filter_by_name floader fname = Some flt
        \<and> (case map_of fps ''modify_data'' of None \<Rightarrow> True | Some flag \<Rightarrow> \<not> truth flag)
        \<and> flt temp fps = Inr res \<and> map_of res ''data'' = None"
  then show "run_filters_loop floader ((fname, fps) # frest) temp md
              = run_filters_loop floader frest temp
                  (case map_of fps ''modify_data'' of None \<Rightarrow> md | Some flag \<Rightarrow> Some False)"
    by (simp split: option.splits)
next
  assume "get_filter_by_name floader fname = Some flt
        \<and> (case map_of fps ''modify_data'' of None \<Rightarrow> True | Some flag \<Rightarrow> \<not> truth flag)
        \<and> flt temp fps = Inl e"
  then show "run_filters_loop floader ((fname, fps) # frest) temp md = Inl e"
    by (simp split: option.splits)
next
  assume "get_trace (trace_data c) (tracetype c) tracenr = Inr raw \<and> run_filters c raw = Inl e"
  then show "scan c b (tracenr # later) = Inl e"
    by (simp add: run_filters_and_triggers_chain)
qed


theorem key_errors_in_the_chains_witness:
  "HoldoffTrigger [0, 0, 0] (Some 0) [] = Inl (KeyError ''holdoff'')
   \<and> run_triggers_loop builtin_triggers
         [(''hold_off'', []), (''first_peak_trigger'', [(''threshold'', PInt 1)])]
         [0, 0, 0] (Some 0) None = Inr None
   \<and> positive_start_trigger [0, 1, 2] (Some 0) [] = Inr []
   \<and> run_triggers_loop [(''positive_start'', positive_start_trigger)]
         [(''positive_start'', [])] [0, 1, 2] (Some 0) (Some [Some 7]) = Inr (Some [Some 7])
   \<and> run_filters_loop [(''no_data'', no_data_filter)]
         [(''no_data'', [(''modify_data'', PBool False)])] [1, 2, 3] None
       = Inr (Some False, [1, 2, 3])
   \<and> run_filters_loop (example_filters (\<lambda>tr w. tr) (\<lambda>order cutoff fs tr. tr))
         [(''moving_average_filter'', [(''enabled'', PBool True)])] [1, 2, 3] None
       = Inl (KeyError ''window_len'')
   \<and> scan_summary (example_config [] [(''hold_off'', [])] [[0, 0, 0], [1, 1, 1]]) (-1, 1)
       = Inr ([(0, 0), (0, 0)], [False, False], (-1, 1))"
proof -
  have t1: "get_trigger_by_name builtin_triggers ''hold_off'' = Some HoldoffTrigger"
    by (simp add: get_trigger_by_name_def builtin_triggers_def)
  have t2: "HoldoffTrigger [0, 0, 0] (Some 0) [] = Inl (KeyError ''holdoff'')"
    by code_simp
  have f1: "get_filter_by_name [(''no_data'', no_data_filter)] ''no_data'' = Some no_data_filter"
    by (simp add: get_filter_by_name_def)
  have f2: "(case map_of [(''modify_data'', PBool False)] ''modify_data'' of
               None \<Rightarrow> True | Some flag \<Rightarrow> \<not> truth flag)" by simp
  have f3: "no_data_filter [1, 2, 3] [(''modify_data'', PBool False)] = Inr []"
    by (simp add: no_data_filter_def)
  have f4: "map_of ([] :: fresult) ''data'' = None" by simp
  let ?fl = "example_filters (\<lambda>tr w. tr) (\<lambda>order cutoff fs tr. tr)"
  have m1: "get_filter_by_name ?fl ''moving_average_filter''
              = Some (MovingAverageFilter (\<lambda>tr w. tr))"
    by (simp add: get_filter_by_name_def example_filters_def)
  have m2: "(case map_of [(''enabled'', PBool True)] ''modify_data'' of
               None \<Rightarrow> True | Some flag \<Rightarrow> \<not> truth flag)" by simp
  have m3: "MovingAverageFilter (\<lambda>tr w. tr) [1, 2, 3] [(''enabled'', PBool True)]
              = Inl (KeyError ''window_len'')"
    by (simp add: MovingAverageFilter_def param_def)
  have a: "run_triggers_loop builtin_triggers
         [(''hold_off'', []), (''first_peak_trigger'', [(''threshold'', PInt 1)])]
         [0, 0, 0] (Some 0) None = Inr None"
    using key_errors_in_the_chains [where tloader = builtin_triggers and tname = "''hold_off''"
        and trg = HoldoffTrigger and temp = "[0, 0, 0]" and offset = "Some 0" and tps = "[]"
        and k = "''holdoff''" and xm = None
        and trest = "[(''first_peak_trigger'', [(''threshold'', PInt 1)])]"]
      t1 t2 by blast
  have b: "run_filters_loop [(''no_data'', no_data_filter)]
         [(''no_data'', [(''modify_data'', PBool False)])] [1, 2, 3] None
       = Inr (Some False, [1, 2, 3])"
    using key_errors_in_the_chains [where floader = "[(''no_data'', no_data_filter)]"
        and fname = "''no_data''" and flt = no_data_filter and temp = "[1, 2, 3]"
        and fps = "[(''modify_data'', PBool False)]" and res = "[]" and frest = "[]"
        and md = None]
      f1 f2 f3 f4 by simp
  have c: "run_filters_loop ?fl
         [(''moving_average_filter'', [(''enabled'', PBool True)])] [1, 2, 3] None
       = Inl (KeyError ''window_len'')"
    using key_errors_in_the_chains [where floader = ?fl
        and fname = "''moving_average_filter''" and flt = "MovingAverageFilter (\<lambda>tr w. tr)"
        and temp = "[1, 2, 3]" and fps = "[(''enabled'', PBool True)]"
        and e = "KeyError ''window_len''" and frest = "[]" and md = None]
      m1 m2 m3 by blast
  have d: "scan_summary (example_config [] [(''hold_off'', [])] [[0, 0, 0], [1, 1, 1]]) (-1, 1)
       = Inr ([(0, 0), (0, 0)], [False, False], (-1, 1))"
    by code_simp
  have p1: "get_trigger_by_name [(''positive_start'', positive_start_trigger)] ''positive_start''
              = Some positive_start_trigger"
    by (simp add: get_trigger_by_name_def)
  have p2: "positive_start_trigger [0, 1, 2] (Some 0) [] = Inr []"
    by (simp add: positive_start_trigger_def)
  have p3: "map_of ([] :: tresult) ''xmarks'' = None" by simp
  note no_marks = key_errors_in_the_chains [where tloader = "[(''positive_start'', positive_start_trigger)]"
      and tname = "''positive_start''" and trg = positive_start_trigger and temp = "[0, 1, 2]"
      and offset = "Some 0" and tps = "[]" and tres = "[]" and xm = "Some [Some 7]"
      and trest = "[]"]
  from no_marks [THEN conjunct2, THEN conjunct2, THEN conjunct1, THEN mp,
      OF conjI [OF p1 conjI [OF p2 p3]]]
  have p: "run_triggers_loop [(''positive_start'', positive_start_trigger)]
         [(''positive_start'', [])] [0, 1, 2] (Some 0) (Some [Some 7]) = Inr (Some [Some 7])" .
  show ?thesis by (intro conjI) (rule t2, rule a, rule p2, rule p, rule b, rule c, rule d)
qed

subsection \<open>The cut geometry\<close>

text \<open>
  C1 (as evaluated on the code): two traces, both valid, with the anchor pairs
  \<open>(1, 2)\<close> and \<open>(1, 4)\<close> and the cut region \<open>[-1, 1]\<close>.  The largest anchor distance is
  3, and with the region's width 2 the claimed length is 5; the run computes 3, the
  distance of the first trace plus the width, and the second trace is cut to
  \<open>[0, 9, 9]\<close>, without the end of its range.
\<close>

theorem run_new_trace_length_from_first_trace_only:
  "scan_summary
     (example_config [] [(''threshold_trigger'', threshold_params)]
        [[0, 9, 0, 0, 0, 0], [0, 9, 9, 9, 0, 0]])
     (-1, 1) = Inr ([(1, 2), (1, 4)], [True, True], (-1, 1))
   \<and> run_summary
         (example_config [] [(''threshold_trigger'', threshold_params)]
            [[0, 9, 0, 0, 0, 0], [0, 9, 9, 9, 0, 0]])
         (-1, 1) ''em'' = Inr (3, Some [[0, 9, 0], [0, 9, 9]])
   \<and> spec_new_length
         \<lparr>region_around_peak = (-1, 1), peak_array = [(1, 2), (1, 4)],
          valid_traces_array = [True, True], new_trace_data = new_NumpyArrays\<rparr> = 5"
  by code_simp

subsection \<open>Writing traces\<close>

lemma registered_after_register_data_file:
  "register_data_file mem s ch len = Inr s' \<Longrightarrow> registered s' ch (nat len)"
  by (auto simp add: register_data_file_def registered_def list_all_iff split: if_splits)

lemma add_trace_full:
  "number_of_traces s \<le> records_written s \<Longrightarrow> add_trace s ch row = Inr s"
  by (simp add: add_trace_def)

lemma add_trace_writes:
  assumes "registered s ch (length row)" and "records_written s < number_of_traces s"
    and "npy_mm s ch = Some arr"
  shows "add_trace s ch row =
           Inr (s\<lparr>npy_mm := (npy_mm s)(ch \<mapsto> arr[records_written s := row]),
                  records_written := Suc (records_written s)\<rparr>)"
  using assms
  by (auto simp add: add_trace_def registered_def assign_row_def list_all_length)

lemma registered_after_write:
  assumes "registered s ch (length row)" and "records_written s < number_of_traces s"
    and "npy_mm s ch = Some arr" and "registered s ch' len"
  shows "registered
           (s\<lparr>npy_mm := (npy_mm s)(ch \<mapsto> arr[records_written s := row]),
              records_written := Suc (records_written s)\<rparr>) ch' len"
proof (cases "ch' = ch")
  case False
  with assms(4) show ?thesis by (auto simp add: registered_def split: option.splits)
next
  case True
  from assms(1,3) have la: "length arr = number_of_traces s"
    and rows: "\<forall>r \<in> set arr. length r = length row"
    by (simp_all add: registered_def list_all_iff)
  from assms(4,3) True have rows': "\<forall>r \<in> set arr. length r = len"
    by (simp add: registered_def list_all_iff)
  from assms(2) la have "arr ! records_written s \<in> set arr" by simp
  with rows rows' have "len = length row" by metis
  with rows la True show ?thesis
    by (auto simp add: registered_def list_all_iff dest: set_update_subset_insert [THEN subsetD])
qed

lemma add_traces_rows:
  assumes "records_written s \<le> number_of_traces s"
    and "\<forall>(ch, row) \<in> set calls. registered s ch (length row)"
  shows "\<exists>s'. add_traces s calls = Inr s'
          \<and> number_of_traces s' = number_of_traces s
          \<and> records_written s' = min (records_written s + length calls) (number_of_traces s)
          \<and> (\<forall>ch arr. npy_mm s ch = Some arr \<longrightarrow>
                (\<exists>arr'. npy_mm s' ch = Some arr' \<and> length arr' = length arr
                   \<and> (\<forall>j < length arr. arr' ! j =
                         (if records_written s \<le> j \<and> j < records_written s + length calls
                             \<and> j < number_of_traces s
                             \<and> fst (calls ! (j - records_written s)) = ch
                          then snd (calls ! (j - records_written s)) else arr ! j))))"
  using assms
proof (induction calls arbitrary: s)
  case Nil
  then show ?case by auto
next
  case (Cons call calls)
  obtain ch0 row0 where call: "call = (ch0, row0)" by (cases call)
  let ?w = "records_written s" and ?n = "number_of_traces s"
  from Cons.prems(2) call have reg0: "registered s ch0 (length row0)" by simp
  show ?case
  proof (cases "?w < ?n")
    case False
    with Cons.prems(1) have full: "?w = ?n" by simp
    then have step: "add_trace s ch0 row0 = Inr s" by (simp add: add_trace_full)
    from Cons.prems(2) have "\<forall>(ch, row) \<in> set calls. registered s ch (length row)" by simp
    from Cons.IH [OF Cons.prems(1) this] obtain s' where
      s': "add_traces s calls = Inr s'" "number_of_traces s' = ?n"
        "records_written s' = min (?w + length calls) ?n"
        "\<forall>ch arr. npy_mm s ch = Some arr \<longrightarrow>
                (\<exists>arr'. npy_mm s' ch = Some arr' \<and> length arr' = length arr
                   \<and> (\<forall>j < length arr. arr' ! j =
                         (if ?w \<le> j \<and> j < ?w + length calls \<and> j < ?n
                             \<and> fst (calls ! (j - ?w)) = ch
                          then snd (calls ! (j - ?w)) else arr ! j)))"
      by blast
    have "add_traces s (call # calls) = Inr s'" using step s'(1) by (simp add: call)
    moreover have "records_written s' = min (?w + length (call # calls)) ?n"
      using s'(3) full by simp
    moreover have "\<forall>ch arr. npy_mm s ch = Some arr \<longrightarrow>
                (\<exists>arr'. npy_mm s' ch = Some arr' \<and> length arr' = length arr
                   \<and> (\<forall>j < length arr. arr' ! j =
                         (if ?w \<le> j \<and> j < ?w + length (call # calls) \<and> j < ?n
                             \<and> fst ((call # calls) ! (j - ?w)) = ch
                          then snd ((call # calls) ! (j - ?w)) else arr ! j)))"
    proof (intro allI impI)
      fix ch arr assume "npy_mm s ch = Some arr"
      with s'(4) obtain arr' where a: "npy_mm s' ch = Some arr'" "length arr' = length arr"
        "\<forall>j < length arr. arr' ! j =
                         (if ?w \<le> j \<and> j < ?w + length calls \<and> j < ?n
                             \<and> fst (calls ! (j - ?w)) = ch
                          then snd (calls ! (j - ?w)) else arr ! j)" by blast
      from a(3) full have "\<forall>j < length arr. arr' ! j = arr ! j" by auto
      with a(1,2) full show "\<exists>arr'. npy_mm s' ch = Some arr' \<and> length arr' = length arr
                   \<and> (\<forall>j < length arr. arr' ! j =
                         (if ?w \<le> j \<and> j < ?w + length (call # calls) \<and> j < ?n
                             \<and> fst ((call # calls) ! (j - ?w)) = ch
                          then snd ((call # calls) ! (j - ?w)) else arr ! j))"
        by auto
    qed
    ultimately show ?thesis using s'(2) by blast
  next
    case True
    from reg0 obtain arr0 where arr0: "npy_mm s ch0 = Some arr0"
      and len0: "length arr0 = ?n"
      by (auto simp add: registered_def split: option.splits)
    let ?s1 = "s\<lparr>npy_mm := (npy_mm s)(ch0 \<mapsto> arr0[?w := row0]),
                  records_written := Suc ?w\<rparr>"
    have step: "add_trace s ch0 row0 = Inr ?s1"
      by (rule add_trace_writes [OF reg0 True arr0])
    have w1: "records_written ?s1 \<le> number_of_traces ?s1" using True by simp
    have reg1: "\<forall>(ch, row) \<in> set calls. registered ?s1 ch (length row)"
      using Cons.prems(2) registered_after_write [OF reg0 True arr0] by auto
    from Cons.IH [OF w1 reg1] obtain s' where
      ih: "add_traces ?s1 calls = Inr s'" "number_of_traces s' = number_of_traces ?s1"
        "records_written s' = min (records_written ?s1 + length calls) (number_of_traces ?s1)"
        "\<forall>ch arr. npy_mm ?s1 ch = Some arr \<longrightarrow>
                (\<exists>arr'. npy_mm s' ch = Some arr' \<and> length arr' = length arr
                   \<and> (\<forall>j < length arr. arr' ! j =
                         (if records_written ?s1 \<le> j
                             \<and> j < records_written ?s1 + length calls
                             \<and> j < number_of_traces ?s1
                             \<and> fst (calls ! (j - records_written ?s1)) = ch
                          then snd (calls ! (j - records_written ?s1)) else arr ! j)))"
      by blast
    have s': "add_traces ?s1 calls = Inr s'" "number_of_traces s' = ?n"
        "records_written s' = min (Suc ?w + length calls) ?n"
      using ih(1,2,3) by simp_all
    have "add_traces s (call # calls) = Inr s'" using step s'(1) by (simp add: call)
    moreover have "records_written s' = min (?w + length (call # calls)) ?n"
      using s'(3) by simp
    moreover have "\<forall>ch arr. npy_mm s ch = Some arr \<longrightarrow>
                (\<exists>arr'. npy_mm s' ch = Some arr' \<and> length arr' = length arr
                   \<and> (\<forall>j < length arr. arr' ! j =
                         (if ?w \<le> j \<and> j < ?w + length (call # calls) \<and> j < ?n
                             \<and> fst ((call # calls) ! (j - ?w)) = ch
                          then snd ((call # calls) ! (j - ?w)) else arr ! j)))"
    proof (intro allI impI)
      fix ch arr assume arr: "npy_mm s ch = Some arr"
      let ?arr1 = "if ch = ch0 then arr0[?w := row0] else arr"
      have m1: "npy_mm ?s1 ch = Some ?arr1" using arr by simp
      have l1: "length ?arr1 = length arr" using arr arr0 by auto
      from ih(4) m1 obtain arr' where a0: "npy_mm s' ch = Some arr'"
        "length arr' = length ?arr1"
        "\<forall>j < length ?arr1. arr' ! j =
                         (if records_written ?s1 \<le> j
                             \<and> j < records_written ?s1 + length calls
                             \<and> j < number_of_traces ?s1
                             \<and> fst (calls ! (j - records_written ?s1)) = ch
                          then snd (calls ! (j - records_written ?s1)) else ?arr1 ! j)"
        by blast
      have a: "npy_mm s' ch = Some arr'" "length arr' = length ?arr1"
        "\<forall>j < length ?arr1. arr' ! j =
                         (if Suc ?w \<le> j \<and> j < Suc ?w + length calls \<and> j < ?n
                             \<and> fst (calls ! (j - Suc ?w)) = ch
                          then snd (calls ! (j - Suc ?w)) else ?arr1 ! j)"
        using a0 by simp_all
      have "\<forall>j < length arr. arr' ! j =
                         (if ?w \<le> j \<and> j < ?w + length (call # calls) \<and> j < ?n
                             \<and> fst ((call # calls) ! (j - ?w)) = ch
                          then snd ((call # calls) ! (j - ?w)) else arr ! j)"
      proof (intro allI impI)
        fix j assume j: "j < length arr"
        with a(3) l1 have aj: "arr' ! j =
                         (if Suc ?w \<le> j \<and> j < Suc ?w + length calls \<and> j < ?n
                             \<and> fst (calls ! (j - Suc ?w)) = ch
                          then snd (calls ! (j - Suc ?w)) else ?arr1 ! j)" by simp
        consider "j < ?w" | "j = ?w" | "?w < j" by linarith
        then show "arr' ! j =
                         (if ?w \<le> j \<and> j < ?w + length (call # calls) \<and> j < ?n
                             \<and> fst ((call # calls) ! (j - ?w)) = ch
                          then snd ((call # calls) ! (j - ?w)) else arr ! j)"
        proof cases
          case 1
          with aj arr arr0 show ?thesis by auto
        next
          case 2
          with aj True j arr arr0 show ?thesis by (auto simp add: call)
        next
          case 3
          then have "j - ?w = Suc (j - Suc ?w)" by simp
          with aj 3 arr arr0 show ?thesis by auto
        qed
      qed
      with a(1,2) l1 show "\<exists>arr'. npy_mm s' ch = Some arr' \<and> length arr' = length arr
                   \<and> (\<forall>j < length arr. arr' ! j =
                         (if ?w \<le> j \<and> j < ?w + length (call # calls) \<and> j < ?n
                             \<and> fst ((call # calls) ! (j - ?w)) = ch
                          then snd ((call # calls) ! (j - ?w)) else arr ! j))"
        by auto
    qed
    ultimately show ?thesis using s'(2) by blast
  qed
qed


lemma add_traces_append:
  "add_traces s (xs @ ys) =
     (case add_traces s xs of Inl e \<Rightarrow> Inl e | Inr s' \<Rightarrow> add_traces s' ys)"
  by (induction xs arbitrary: s) (auto split: sum.splits)

lemma add_traces_past_budget:
  assumes "records_written s = 0"
    and "\<forall>(ch, row) \<in> set calls. registered s ch (length row)"
    and "k < length calls" and "number_of_traces s \<le> k"
  shows "add_traces s (take (Suc k) calls) = add_traces s (take k calls)"
proof -
  have "\<forall>(ch, row) \<in> set (take k calls). registered s ch (length row)"
    using assms(2) by (auto dest: in_set_takeD)
  with add_traces_rows [of s "take k calls"] assms(1) obtain sk where
    sk: "add_traces s (take k calls) = Inr sk" "number_of_traces sk = number_of_traces s"
      "records_written sk = min (records_written s + length (take k calls)) (number_of_traces s)"
    by auto
  from sk(3) assms have "number_of_traces sk \<le> records_written sk"
    by (simp add: sk(2))
  then have "add_trace sk (fst (calls ! k)) (snd (calls ! k)) = Inr sk"
    by (rule add_trace_full)
  then have "add_traces sk [calls ! k] = Inr sk"
    by (cases "calls ! k") simp
  with sk(1) show ?thesis
    using assms(3) by (simp add: take_Suc_conv_app_nth add_traces_append)
qed

text \<open>
  C9: \<open>add_trace\<close> of the array backend counts the records written in one counter for
  the whole data set.  For a data set declared with \<open>n\<close> traces and nothing written yet,
  and calls on registered channels with rows of the registered length: every call
  returns, the counter ends at the smaller of the number of calls and \<open>n\<close>; row \<open>j\<close> of a
  channel holds the row of call \<open>j\<close> when that call was on this channel and \<open>j < n\<close>, and
  is otherwise untouched (so call \<open>j\<close> lands in row \<open>j\<close> of its channel, whatever the
  channel holds); and a call numbered \<open>n\<close> or more changes nothing.
\<close>

theorem add_trace_shares_one_counter:
  assumes "records_written s = 0"
    and "\<forall>(ch, row) \<in> set calls. registered s ch (length row)"
  shows "\<exists>s'. add_traces s calls = Inr s'
          \<and> records_written s' = min (length calls) (number_of_traces s)
          \<and> (\<forall>ch arr. npy_mm s ch = Some arr \<longrightarrow>
                (\<exists>arr'. npy_mm s' ch = Some arr' \<and> length arr' = length arr
                   \<and> (\<forall>j < length arr. arr' ! j =
                         (if j < length calls \<and> j < number_of_traces s \<and> fst (calls ! j) = ch
                          then snd (calls ! j) else arr ! j))))
          \<and> (\<forall>k < length calls. number_of_traces s \<le> k \<longrightarrow>
                add_traces s (take (Suc k) calls) = add_traces s (take k calls))"
proof -
  from add_traces_rows [of s calls] assms obtain s' where
    s': "add_traces s calls = Inr s'"
      "records_written s' = min (records_written s + length calls) (number_of_traces s)"
      "\<forall>ch arr. npy_mm s ch = Some arr \<longrightarrow>
                (\<exists>arr'. npy_mm s' ch = Some arr' \<and> length arr' = length arr
                   \<and> (\<forall>j < length arr. arr' ! j =
                         (if records_written s \<le> j \<and> j < records_written s + length calls
                             \<and> j < number_of_traces s
                             \<and> fst (calls ! (j - records_written s)) = ch
                          then snd (calls ! (j - records_written s)) else arr ! j)))"
    by auto
  from s'(2,3) assms(1) have
    "records_written s' = min (length calls) (number_of_traces s)"
    "\<forall>ch arr. npy_mm s ch = Some arr \<longrightarrow>
                (\<exists>arr'. npy_mm s' ch = Some arr' \<and> length arr' = length arr
                   \<and> (\<forall>j < length arr. arr' ! j =
                         (if j < length calls \<and> j < number_of_traces s \<and> fst (calls ! j) = ch
                          then snd (calls ! j) else arr ! j)))"
    by (simp_all cong: if_cong)
  with s'(1) add_traces_past_budget [OF assms] show ?thesis by blast
qed


theorem add_trace_shares_one_counter_witness:
  "(case register_data_file (\<lambda>r c. 0) (set_number_of_traces new_NumpyArrays 2) ''power'' 2 of
      Inl e \<Rightarrow> Inl e
    | Inr s1 \<Rightarrow> register_data_file (\<lambda>r c. 0) s1 ''em'' 2) = Inr two_channel_store
   \<and> records_written two_channel_store = 0
   \<and> registered two_channel_store ''power'' 2 \<and> registered two_channel_store ''em'' 2
   \<and> (\<exists>s'. add_traces two_channel_store
               [(''power'', [1, 1]), (''em'', [2, 2]), (''power'', [3, 3]), (''em'', [4, 4])]
             = Inr s'
            \<and> records_written s' = 2
            \<and> npy_mm s' ''power'' = Some [[1, 1], [0, 0]]
            \<and> npy_mm s' ''em'' = Some [[0, 0], [2, 2]])"
proof -
  let ?calls = "[(''power'', [1, 1]), (''em'', [2, 2]), (''power'', [3, 3]), (''em'', [4, 4])]
                  :: (string \<times> trace) list"
  have built: "(case register_data_file (\<lambda>r c. 0) (set_number_of_traces new_NumpyArrays 2)
                       ''power'' 2 of
      Inl e \<Rightarrow> Inl e
    | Inr s1 \<Rightarrow> register_data_file (\<lambda>r c. 0) s1 ''em'' 2) = Inr two_channel_store"
    by (simp add: register_data_file_def set_number_of_traces_def new_NumpyArrays_def
          two_channel_store_def upt_rec fun_upd_twist)
  have h1: "records_written two_channel_store = 0" by code_simp
  have r: "registered two_channel_store ''power'' 2" "registered two_channel_store ''em'' 2"
    by code_simp+
  have h2: "\<forall>(ch, row) \<in> set ?calls. registered two_channel_store ch (length row)"
    by code_simp
  from add_trace_shares_one_counter [OF h1 h2] obtain s' where
    s': "add_traces two_channel_store ?calls = Inr s'"
      "records_written s' = min (length ?calls) (number_of_traces two_channel_store)"
    by blast
  have n: "number_of_traces two_channel_store = 2" by code_simp
  have ev: "(case add_traces two_channel_store ?calls of
               Inl e \<Rightarrow> None
             | Inr t \<Rightarrow> Some (npy_mm t ''power'', npy_mm t ''em''))
            = Some (Some [[1, 1], [0, 0]], Some [[0, 0], [2, 2]])"
    by code_simp
  from s' n ev have "records_written s' = 2 \<and> npy_mm s' ''power'' = Some [[1, 1], [0, 0]]
            \<and> npy_mm s' ''em'' = Some [[0, 0], [2, 2]]"
    by simp
  with s'(1) built h1 r show ?thesis by blast
qed

lemma add_traces_one_channel:
  assumes "registered s ch len" and "records_written s = 0"
    and "\<forall>row \<in> set rows. length row = len" and "number_of_traces s \<le> length rows"
  shows "\<exists>s'. add_traces s (map (Pair ch) rows) = Inr s'
          \<and> npy_mm s' ch = Some (take (number_of_traces s) rows)
          \<and> number_of_traces s' = number_of_traces s
          \<and> records_written s' = number_of_traces s"
proof -
  let ?calls = "map (Pair ch) rows" and ?n = "number_of_traces s"
  from assms(1) obtain arr where arr: "npy_mm s ch = Some arr" "length arr = ?n"
    by (auto simp add: registered_def split: option.splits)
  have h1: "records_written s \<le> ?n" using assms(2) by simp
  have h2: "\<forall>(c, row) \<in> set ?calls. registered s c (length row)"
    using assms(1,3) by auto
  from add_traces_rows [OF h1 h2] obtain s' where
    s': "add_traces s ?calls = Inr s'" "number_of_traces s' = ?n"
      "records_written s' = min (records_written s + length ?calls) ?n"
      "\<forall>c a. npy_mm s c = Some a \<longrightarrow>
                (\<exists>arr'. npy_mm s' c = Some arr' \<and> length arr' = length a
                   \<and> (\<forall>j < length a. arr' ! j =
                         (if records_written s \<le> j \<and> j < records_written s + length ?calls
                             \<and> j < ?n
                             \<and> fst (?calls ! (j - records_written s)) = c
                          then snd (?calls ! (j - records_written s)) else a ! j)))"
    by blast
  from s'(4) arr(1) obtain arr' where a: "npy_mm s' ch = Some arr'" "length arr' = length arr"
    "\<forall>j < length arr. arr' ! j =
         (if records_written s \<le> j \<and> j < records_written s + length ?calls \<and> j < ?n
             \<and> fst (?calls ! (j - records_written s)) = ch
          then snd (?calls ! (j - records_written s)) else arr ! j)"
    by blast
  have "arr' = take ?n rows"
  proof (rule nth_equalityI)
    show "length arr' = length (take ?n rows)" using a(2) arr(2) assms(4) by simp
  next
    fix j assume "j < length arr'"
    with a(2) arr(2) have j: "j < ?n" by simp
    with assms(4) have jr: "j < length rows" by simp
    from a(3) j arr(2) have "arr' ! j =
         (if records_written s \<le> j \<and> j < records_written s + length ?calls \<and> j < ?n
             \<and> fst (?calls ! (j - records_written s)) = ch
          then snd (?calls ! (j - records_written s)) else arr ! j)" by simp
    with j jr assms(2) show "arr' ! j = take ?n rows ! j" by simp
  qed
  with a(1) s'(1,2,3) assms(2,4) show ?thesis by simp
qed

lemma addTraces_MEMMAP:
  assumes "saveMethod d = MEMMAP" and "recording d"
    and "recordsWritten d \<le> nrTraces d" and "length (memmap_data d) = nrTraces d"
    and "\<forall>bytes \<in> set rows. length bytes = row_length d * itemsize d"
  shows "nrTraces (addTraces d rows) = nrTraces d
       \<and> recordsWritten (addTraces d rows) = min (recordsWritten d + length rows) (nrTraces d)
       \<and> length (memmap_data (addTraces d rows)) = nrTraces d
       \<and> (\<forall>j < nrTraces d. memmap_data (addTraces d rows) ! j =
            (if recordsWritten d \<le> j \<and> j < recordsWritten d + length rows
             then rows ! (j - recordsWritten d) else memmap_data d ! j))"
  using assms
proof (induction rows arbitrary: d)
  case Nil
  then show ?case by auto
next
  case (Cons bytes rows)
  let ?w = "recordsWritten d" and ?n = "nrTraces d"
  show ?case
  proof (cases "?w < ?n")
    case False
    with Cons.prems have step: "addTrace d bytes = d"
      by (simp add: addTrace_def addTraceRaw_def)
    from Cons.prems have "\<forall>b \<in> set rows. length b = row_length d * itemsize d" by simp
    from Cons.IH [OF Cons.prems(1,2,3,4) this] False Cons.prems(3) step
    show ?thesis by auto
  next
    case True
    let ?d1 = "d\<lparr>memmap_data := (memmap_data d)[?w := bytes],
                 hashed := hashed d @ bytes, recordsWritten := ?w + 1\<rparr>"
    from True Cons.prems have step: "addTrace d bytes = ?d1"
      by (simp add: addTrace_def addTraceRaw_def)
    have p: "saveMethod ?d1 = MEMMAP" "recording ?d1" "recordsWritten ?d1 \<le> nrTraces ?d1"
      "length (memmap_data ?d1) = nrTraces ?d1"
      "\<forall>b \<in> set rows. length b = row_length ?d1 * itemsize ?d1"
      using True Cons.prems by simp_all
    from Cons.IH [OF p] have ih:
      "nrTraces (addTraces ?d1 rows) = ?n"
      "recordsWritten (addTraces ?d1 rows) = min (Suc ?w + length rows) ?n"
      "length (memmap_data (addTraces ?d1 rows)) = ?n"
      "\<forall>j < ?n. memmap_data (addTraces ?d1 rows) ! j =
            (if Suc ?w \<le> j \<and> j < Suc ?w + length rows
             then rows ! (j - Suc ?w) else (memmap_data d)[?w := bytes] ! j)"
      by simp_all
    have "\<forall>j < ?n. memmap_data (addTraces ?d1 rows) ! j =
            (if ?w \<le> j \<and> j < ?w + length (bytes # rows)
             then (bytes # rows) ! (j - ?w) else memmap_data d ! j)"
    proof (intro allI impI)
      fix j assume j: "j < ?n"
      with ih(4) have aj: "memmap_data (addTraces ?d1 rows) ! j =
            (if Suc ?w \<le> j \<and> j < Suc ?w + length rows
             then rows ! (j - Suc ?w) else (memmap_data d)[?w := bytes] ! j)" by blast
      consider "j < ?w" | "j = ?w" | "?w < j" by linarith
      then show "memmap_data (addTraces ?d1 rows) ! j =
            (if ?w \<le> j \<and> j < ?w + length (bytes # rows)
             then (bytes # rows) ! (j - ?w) else memmap_data d ! j)"
      proof cases
        case 1 with aj show ?thesis by auto
      next
        case 2 with aj True Cons.prems(4) show ?thesis by auto
      next
        case 3
        then have "j - ?w = Suc (j - Suc ?w)" by simp
        with aj 3 show ?thesis by auto
      qed
    qed
    with ih(1,2,3) step show ?thesis by simp
  qed
qed

lemma addTraces_DIRECTWRITE:
  assumes "saveMethod d = DIRECTWRITE" and "recording d"
    and "\<forall>bytes \<in> set rows. length bytes = row_length d * itemsize d"
  shows "file_data (addTraces d rows) = file_data d @ concat rows
       \<and> recordsWritten (addTraces d rows) = recordsWritten d + length rows
       \<and> nrTraces (addTraces d rows) = nrTraces d"
  using assms
proof (induction rows arbitrary: d)
  case Nil
  then show ?case by simp
next
  case (Cons bytes rows)
  let ?d1 = "d\<lparr>file_data := file_data d @ bytes, hashed := hashed d @ bytes,
            recordsWritten := recordsWritten d + 1\<rparr>"
  from Cons.prems have step: "addTrace d bytes = ?d1"
    by (simp add: addTrace_def addTraceRaw_def)
  have p: "saveMethod ?d1 = DIRECTWRITE" "recording ?d1"
    "\<forall>b \<in> set rows. length b = row_length ?d1 * itemsize ?d1"
    using Cons.prems by simp_all
  from Cons.IH [OF p] step show ?case by simp
qed


lemma saveMethod_addTraces: "saveMethod (addTraces d rows) = saveMethod d"
  by (induction rows arbitrary: d)
     (auto simp add: addTrace_def addTraceRaw_def split: save_method.splits)

text \<open>
  C7, as stated, fails in the structured backend: a channel that \<open>register_data_file\<close>
  registers is recorded with \<open>DIRECTWRITE\<close>, which checks no capacity.  With three
  traces declared and four rows added, the file holds all four rows.
\<close>

theorem excess_traces_and_the_capacity_check_counterexample:
  "file_data (addTraces (prepareForRecord 3 2 1 DIRECTWRITE) [[1, 2], [3, 4], [5, 6], [7, 8]])
     = [1, 2, 3, 4, 5, 6, 7, 8]
   \<and> recordsWritten
         (addTraces (prepareForRecord 3 2 1 DIRECTWRITE) [[1, 2], [3, 4], [5, 6], [7, 8]]) = 4
   \<and> nrTraces
         (addTraces (prepareForRecord 3 2 1 DIRECTWRITE) [[1, 2], [3, 4], [5, 6], [7, 8]]) = 3"
  by code_simp

text \<open>
  C7, amended.  Array backend: when a channel registered for \<open>n\<close> traces alone receives
  at least \<open>n\<close> rows of its length, every call returns, the channel holds exactly the
  first \<open>n\<close> rows, \<open>get_number_of_traces\<close> is unchanged, and any further \<open>add_trace\<close>
  returns the data set as it is.  Structured backend with \<open>MEMMAP\<close>: the memory map
  holds the first \<open>n\<close> rows and a further \<open>addTrace\<close> changes nothing.  Structured backend
  with \<open>DIRECTWRITE\<close>: every row is appended to the file, the excess ones too; nothing
  raises, and the declared number of traces stays.
\<close>

theorem excess_traces_and_the_capacity_check:
  "(registered s ch len \<and> records_written s = 0 \<and> (\<forall>row \<in> set rows. length row = len)
      \<and> number_of_traces s \<le> length rows
      \<longrightarrow> (\<exists>s'. add_traces s (map (Pair ch) rows) = Inr s'
              \<and> npy_mm s' ch = Some (take (number_of_traces s) rows)
              \<and> get_number_of_traces s' = get_number_of_traces s
              \<and> add_trace s' ch' row' = Inr s'))
   \<and> ((\<forall>bytes \<in> set chunks. length bytes = blen * isize) \<and> n \<le> length chunks
      \<longrightarrow> memmap_data (addTraces (prepareForRecord n blen isize MEMMAP) chunks) = take n chunks
         \<and> recordsWritten (addTraces (prepareForRecord n blen isize MEMMAP) chunks) = n
         \<and> nrTraces (addTraces (prepareForRecord n blen isize MEMMAP) chunks) = n
         \<and> addTrace (addTraces (prepareForRecord n blen isize MEMMAP) chunks) extra
             = addTraces (prepareForRecord n blen isize MEMMAP) chunks)
   \<and> ((\<forall>bytes \<in> set chunks. length bytes = blen * isize)
      \<longrightarrow> file_data (addTraces (prepareForRecord n blen isize DIRECTWRITE) chunks)
             = concat chunks
         \<and> recordsWritten (addTraces (prepareForRecord n blen isize DIRECTWRITE) chunks)
             = length chunks
         \<and> nrTraces (addTraces (prepareForRecord n blen isize DIRECTWRITE) chunks) = n)"
proof (intro conjI impI)
  assume h: "registered s ch len \<and> records_written s = 0
      \<and> (\<forall>row \<in> set rows. length row = len) \<and> number_of_traces s \<le> length rows"
  then obtain s' where s': "add_traces s (map (Pair ch) rows) = Inr s'"
      "npy_mm s' ch = Some (take (number_of_traces s) rows)"
      "number_of_traces s' = number_of_traces s"
      "records_written s' = number_of_traces s"
    using add_traces_one_channel [of s ch len rows] by blast
  from s'(3,4) have "add_trace s' ch' row' = Inr s'" by (simp add: add_trace_full)
  with s' show "\<exists>s'. add_traces s (map (Pair ch) rows) = Inr s'
              \<and> npy_mm s' ch = Some (take (number_of_traces s) rows)
              \<and> get_number_of_traces s' = get_number_of_traces s
              \<and> add_trace s' ch' row' = Inr s'"
    by (simp add: get_number_of_traces_def)
next
  let ?d = "prepareForRecord n blen isize MEMMAP"
  assume h: "(\<forall>bytes \<in> set chunks. length bytes = blen * isize) \<and> n \<le> length chunks"
  have p: "saveMethod ?d = MEMMAP" "recording ?d" "recordsWritten ?d \<le> nrTraces ?d"
    "length (memmap_data ?d) = nrTraces ?d"
    "\<forall>bytes \<in> set chunks. length bytes = row_length ?d * itemsize ?d"
    using h by (simp_all add: prepareForRecord_def)
  have d0: "nrTraces ?d = n" "recordsWritten ?d = 0" by (simp_all add: prepareForRecord_def)
  from addTraces_MEMMAP [OF p] d0 h have m:
    "nrTraces (addTraces ?d chunks) = n"
    "recordsWritten (addTraces ?d chunks) = n"
    "length (memmap_data (addTraces ?d chunks)) = n"
    "\<forall>j < n. memmap_data (addTraces ?d chunks) ! j = chunks ! j"
    by simp_all
  show "nrTraces (addTraces ?d chunks) = n" by (rule m(1))
  show "recordsWritten (addTraces ?d chunks) = n" by (rule m(2))
  show "memmap_data (addTraces ?d chunks) = take n chunks"
    using m(3,4) h by (intro nth_equalityI) simp_all
  show "addTrace (addTraces ?d chunks) extra = addTraces ?d chunks"
    using m(1,2) saveMethod_addTraces [of ?d chunks] p(1)
    by (simp add: addTrace_def addTraceRaw_def)
next
  let ?d = "prepareForRecord n blen isize DIRECTWRITE"
  assume h: "\<forall>bytes \<in> set chunks. length bytes = blen * isize"
  have p: "saveMethod ?d = DIRECTWRITE" "recording ?d"
    "\<forall>bytes \<in> set chunks. length bytes = row_length ?d * itemsize ?d"
    using h by (simp_all add: prepareForRecord_def)
  have d0: "nrTraces ?d = n" "recordsWritten ?d = 0" "file_data ?d = []"
    by (simp_all add: prepareForRecord_def)
  from addTraces_DIRECTWRITE [OF p] d0
  show "file_data (addTraces ?d chunks) = concat chunks"
    and "recordsWritten (addTraces ?d chunks) = length chunks"
    and "nrTraces (addTraces ?d chunks) = n"
    by simp_all
qed

theorem excess_traces_and_the_capacity_check_witness:
  "registered test_store ''em'' 5 \<and> records_written test_store = 0
   \<and> list_all (\<lambda>row. length row = 5) test_rows
   \<and> number_of_traces test_store \<le> length test_rows
   \<and> (\<exists>s'. add_traces test_store (map (Pair ''em'') test_rows) = Inr s'
          \<and> npy_mm s' ''em'' = Some [[1, 2, 3, 4, 5], [2, 3, 3, 4, 5], [3, 2, 3, 4, 5]]
          \<and> get_number_of_traces s' = 3
          \<and> add_trace s' ''em'' [9, 9, 9, 9, 9] = Inr s')
   \<and> memmap_data (addTraces (prepareForRecord 3 2 1 MEMMAP) [[1, 2], [3, 4], [5, 6], [7, 8]])
       = [[1, 2], [3, 4], [5, 6]]
   \<and> file_data (addTraces (prepareForRecord 3 2 1 DIRECTWRITE) [[1, 2], [3, 4], [5, 6], [7, 8]])
       = [1, 2, 3, 4, 5, 6, 7, 8]"
proof -
  have h1: "registered test_store ''em'' 5" by code_simp
  have h2: "records_written test_store = 0" by code_simp
  have h3: "\<forall>row \<in> set test_rows. length row = 5" by code_simp
  have h4: "number_of_traces test_store \<le> length test_rows" by code_simp
  have n: "get_number_of_traces test_store = 3" "number_of_traces test_store = 3" by code_simp+
  have t: "take 3 test_rows = [[1, 2, 3, 4, 5], [2, 3, 3, 4, 5], [3, 2, 3, 4, 5]]"
    by code_simp
  let ?chunks = "[[1, 2], [3, 4], [5, 6], [7, 8]] :: byte list list"
  have c1: "\<forall>bytes \<in> set ?chunks. length bytes = 2 * 1" by simp
  have c2: "3 \<le> length ?chunks" by simp
  note inst = excess_traces_and_the_capacity_check [where s = test_store and ch = "''em''"
      and len = 5 and rows = test_rows and ch' = "''em''" and row' = "[9, 9, 9, 9, 9]"
      and chunks = ?chunks and blen = 2 and isize = 1 and n = 3]
  from inst h1 h2 h3 h4 have
    "\<exists>s'. add_traces test_store (map (Pair ''em'') test_rows) = Inr s'
          \<and> npy_mm s' ''em'' = Some (take (number_of_traces test_store) test_rows)
          \<and> get_number_of_traces s' = get_number_of_traces test_store
          \<and> add_trace s' ''em'' [9, 9, 9, 9, 9] = Inr s'"
    by blast
  then have a: "\<exists>s'. add_traces test_store (map (Pair ''em'') test_rows) = Inr s'
          \<and> npy_mm s' ''em'' = Some [[1, 2, 3, 4, 5], [2, 3, 3, 4, 5], [3, 2, 3, 4, 5]]
          \<and> get_number_of_traces s' = 3
          \<and> add_trace s' ''em'' [9, 9, 9, 9, 9] = Inr s'"
    by (simp add: n t)
  from inst c1 c2 have
    "memmap_data (addTraces (prepareForRecord 3 2 1 MEMMAP) ?chunks) = take 3 ?chunks"
    by blast
  then have b: "memmap_data (addTraces (prepareForRecord 3 2 1 MEMMAP) ?chunks)
                  = [[1, 2], [3, 4], [5, 6]]"
    by simp
  from inst c1 have
    "file_data (addTraces (prepareForRecord 3 2 1 DIRECTWRITE) ?chunks) = concat ?chunks"
    by blast
  then have c: "file_data (addTraces (prepareForRecord 3 2 1 DIRECTWRITE) ?chunks)
                  = [1, 2, 3, 4, 5, 6, 7, 8]"
    by simp
  from h3 have h3': "list_all (\<lambda>row. length row = 5) test_rows"
    by (simp add: list_all_iff)
  from h1 h2 h3' h4 a b c show ?thesis by blast
qed

subsection \<open>Cutting\<close>

lemma length_py_slice:
  "length (py_slice xs a b) = slice_index (length xs) b - slice_index (length xs) a"
  by (auto simp add: py_slice_def Let_def slice_index_def)

lemma slice_not_longer:
  "0 \<le> n \<Longrightarrow> slice_index l (start + n) - slice_index l start \<le> nat n"
  by (auto simp add: slice_index_def)

lemma length_cut_trace: "0 \<le> n \<Longrightarrow> length (cut_trace tr start n) = nat n"
  using slice_not_longer [of n "length tr" start]
  by (auto simp add: cut_trace_def Let_def length_py_slice)

lemma nth_cut_trace:
  assumes "0 \<le> start" and "0 \<le> n" and "i < nat n"
  shows "cut_trace tr start n ! i = (if nat start + i < length tr then tr ! (nat start + i) else 0)"
proof -
  let ?lo = "slice_index (length tr) start" and ?hi = "slice_index (length tr) (start + n)"
  have lo: "?lo = min (length tr) (nat start)" using assms(1) by (simp add: slice_index_def)
  have hi: "?hi = min (length tr) (nat start + nat n)"
    using assms(1,2) by (simp add: slice_index_def nat_add_distrib)
  let ?s = "py_slice tr start (start + n)"
  have s: "?s = take (?hi - ?lo) (drop ?lo tr)" by (simp add: py_slice_def Let_def)
  have ls: "length ?s = ?hi - ?lo" by (rule length_py_slice)
  show ?thesis
  proof (cases "nat start + i < length tr")
    case True
    then have il: "i < ?hi - ?lo" using assms(3) unfolding lo hi min_def by auto
    then have "?s ! i = tr ! (nat start + i)"
      using True lo by (simp add: s min_def)
    moreover have "cut_trace tr start n ! i = ?s ! i"
      using il ls by (simp add: cut_trace_def Let_def nth_append)
    ultimately show ?thesis using True by simp
  next
    case False
    then have il: "\<not> i < ?hi - ?lo" unfolding lo hi min_def by auto
    with ls assms(3) have short: "int (length ?s) < n" by auto
    then have "cut_trace tr start n = ?s @ replicate (nat n - length ?s) 0"
      by (simp add: cut_trace_def Let_def)
    with il ls assms(3) False show ?thesis by (simp add: nth_append)
  qed
qed

lemma add_trace_keeps_registered:
  assumes "add_trace s ch row = Inr s'" and "registered s ch' len"
  shows "registered s' ch' len"
proof (cases "number_of_traces s \<le> records_written s")
  case True
  with assms show ?thesis by (simp add: add_trace_def)
next
  case False
  from assms(1) False obtain arr row' where
    arr: "npy_mm s ch = Some arr" "records_written s < length arr"
      "assign_row (arr ! records_written s) row = Inr row'"
      "s' = s\<lparr>npy_mm := (npy_mm s)(ch \<mapsto> arr[records_written s := row']),
                records_written := records_written s + 1\<rparr>"
    by (auto simp add: add_trace_def split: option.splits if_splits sum.splits)
  from arr(3) have lr: "length row' = length (arr ! records_written s)"
    by (auto simp add: assign_row_def split: if_splits)
  show ?thesis
  proof (cases "ch' = ch")
    case False
    with assms(2) arr(4) show ?thesis by (auto simp add: registered_def split: option.splits)
  next
    case True
    with assms(2) arr(1) have la: "length arr = number_of_traces s"
      and rows: "\<forall>r \<in> set arr. length r = len"
      by (simp_all add: registered_def list_all_iff)
    from arr(2) rows lr have "length row' = len" by simp
    with rows la True arr(4) show ?thesis
      by (auto simp add: registered_def list_all_iff dest: set_update_subset_insert [THEN subsetD])
  qed
qed

lemma cut_channels_keeps_registered:
  "cut_channels c tracenr start n out chs = Inr out' \<Longrightarrow> registered out ch len
     \<Longrightarrow> registered out' ch len"
proof (induction chs arbitrary: out)
  case Nil
  then show ?case by simp
next
  case (Cons ch0 chs)
  from Cons.prems(1) obtain filtered out1 where
    "add_trace out ch0 filtered = Inr out1"
    "cut_channels c tracenr start n out1 chs = Inr out'"
    by (auto split: sum.splits)
  with Cons.IH Cons.prems(2) show ?case
    using add_trace_keeps_registered by blast
qed

lemma cut_and_modify_traces_keeps_registered:
  "cut_and_modify_traces c b tracenr n = Inr (b', k) \<Longrightarrow> registered (new_trace_data b) ch len
     \<Longrightarrow> registered (new_trace_data b') ch len"
  by (auto simp add: cut_and_modify_traces_def split: if_splits sum.splits
        dest: cut_channels_keeps_registered)

lemma cut_loop_keeps_registered:
  "cut_loop c b n count tracenrs = Inr (b', count') \<Longrightarrow> registered (new_trace_data b) ch len
     \<Longrightarrow> registered (new_trace_data b') ch len"
proof (induction tracenrs arbitrary: b count)
  case Nil
  then show ?case by simp
next
  case (Cons t ts)
  from Cons.prems(1) obtain b1 k where
    "cut_and_modify_traces c b t n = Inr (b1, k)" "cut_loop c b1 n (count + k) ts = Inr (b', count')"
    by (auto split: sum.splits)
  with Cons.IH Cons.prems(2) show ?case
    using cut_and_modify_traces_keeps_registered by blast
qed


lemma register_signal_channels_registered:
  assumes "register_signal_channels c b len = Inr b2"
    and "ch \<in> set (signal_channels (trace_data c))"
  shows "0 \<le> len \<and> registered (new_trace_data b2) ch (nat len)"
  using assms
  by (auto simp add: register_signal_channels_def signal_channels_def register_data_file_def
        registered_def set_number_of_traces_def list_all_iff Let_def
        split: if_splits)

lemma finalize_channels_keeps_registered:
  "finalize_channels c trace_mask out chs = Inr out' \<Longrightarrow> ch \<notin> set chs
     \<Longrightarrow> registered out ch len \<Longrightarrow> registered out' ch len"
proof (induction chs arbitrary: out)
  case Nil
  then show ?case by simp
next
  case (Cons ch0 chs)
  from Cons.prems(1) obtain first :: trace and out1 rows out2 where
    steps: "register_data_file (memory c) out ch0 (int (length first)) = Inr out1"
      "reduce_data_from_mask out1 ch0 rows trace_mask = Inr out2"
      "finalize_channels c trace_mask out2 chs = Inr out'"
    by (auto split: sum.splits)
  from Cons.prems(2) have ne: "ch \<noteq> ch0" by simp
  from steps(1) ne Cons.prems(3) have "registered out1 ch len"
    by (auto simp add: register_data_file_def registered_def split: if_splits option.splits)
  with steps(2) ne have "registered out2 ch len"
    by (auto simp add: reduce_data_from_mask_def registered_def split: if_splits option.splits)
  with Cons.IH [OF steps(3)] Cons.prems(2) show ?case by simp
qed

lemma run_rows_registered:
  assumes "run c b = Inr (b', len)" and "ch \<in> set (signal_channels (trace_data c))"
  shows "0 \<le> len \<and> registered (new_trace_data b') ch (nat len)"
proof -
  from assms(1) obtain b1 b2 b3 written where
    steps: "register_signal_channels c b1 len = Inr b2"
      "cut_loop c b2 len 0 [0..<trace_count c] = Inr (b3, written)"
      "finalize_new_traces c b3 = Inr b'"
    by (auto simp add: run_def split: sum.splits)
  from register_signal_channels_registered [OF steps(1) assms(2)]
  have r2: "0 \<le> len" "registered (new_trace_data b2) ch (nat len)" by simp_all
  from cut_loop_keeps_registered [OF steps(2) r2(2)]
  have r3: "registered (new_trace_data b3) ch (nat len)" .
  from assms(2) have "ch = ''power'' \<or> ch = ''em''"
    by (auto simp add: signal_channels_def split: if_splits)
  then have nf: "ch \<notin> set ((if has_plain (trace_data c) then [''plain''] else [])
              @ (if has_cipher (trace_data c) then [''cipher''] else []))"
    by auto
  from steps(3) obtain out where
    out: "finalize_channels c (valid_traces_array b3) (new_trace_data b3)
             ((if has_plain (trace_data c) then [''plain''] else [])
              @ (if has_cipher (trace_data c) then [''cipher''] else [])) = Inr out"
      "b' = b3\<lparr>new_trace_data := out\<rparr>"
    by (auto simp add: finalize_new_traces_def split: sum.splits)
  from finalize_channels_keeps_registered [OF out(1) nf r3] out(2) r2(1)
  show ?thesis by simp
qed

lemma cut_channels_as_add_traces:
  assumes "\<forall>x. run_modifying_filter (filters c) (filter_dict c) x = Inr (modified x)"
    and "\<forall>ch \<in> set chs. \<not> isl (get_trace (trace_data c) ch tracenr)"
  shows "cut_channels c tracenr start n out chs =
           add_traces out
             (map (\<lambda>ch. (ch, modified (cut_trace (source_row c ch tracenr) start n))) chs)"
  using assms(2)
proof (induction chs arbitrary: out)
  case Nil
  show ?case by simp
next
  case (Cons ch chs)
  from Cons.prems obtain tr where tr: "get_trace (trace_data c) ch tracenr = Inr tr"
    by (cases "get_trace (trace_data c) ch tracenr") auto
  then have sr: "source_row c ch tracenr = tr" by (simp add: source_row_def)
  from Cons.prems have rest: "\<forall>ch \<in> set chs. \<not> isl (get_trace (trace_data c) ch tracenr)"
    by simp
  show ?case
    using tr sr assms(1) Cons.IH [OF rest]
    by (simp split: sum.splits)
qed

lemma cut_rows_Nil: "cut_rows c b modified n [] = []"
  by (simp add: cut_rows_def)

lemma cut_rows_Cons:
  "cut_rows c b modified n (t # ts) =
     (if valid_traces_array b ! t
      then map (\<lambda>ch. (ch, modified (cut_trace (source_row c ch t)
                  (fst (peak_array b ! t) + fst (region_around_peak b)) n)))
             (signal_channels (trace_data c))
      else []) @ cut_rows c b modified n ts"
  by (simp add: cut_rows_def)

lemma cut_rows_new_trace_data:
  "cut_rows c (b\<lparr>new_trace_data := out\<rparr>) modified n ts = cut_rows c b modified n ts"
  by (simp add: cut_rows_def)

lemma cut_loop_as_add_traces:
  assumes "\<forall>x. run_modifying_filter (filters c) (filter_dict c) x = Inr (modified x)"
    and "\<forall>t \<in> set ts. t < length (valid_traces_array b) \<and> t < length (peak_array b)
           \<and> (\<forall>ch \<in> set (signal_channels (trace_data c)).
                 \<not> isl (get_trace (trace_data c) ch t))"
  shows "cut_loop c b n count ts =
           (case add_traces (new_trace_data b) (cut_rows c b modified n ts) of
              Inl e \<Rightarrow> Inl e
            | Inr out \<Rightarrow>
                Inr (b\<lparr>new_trace_data := out\<rparr>,
                     count + length (filter (\<lambda>t. valid_traces_array b ! t) ts)))"
  using assms(2)
proof (induction ts arbitrary: b count)
  case Nil
  show ?case by (simp add: cut_rows_Nil)
next
  case (Cons t ts)
  from Cons.prems have t: "t < length (valid_traces_array b)" "t < length (peak_array b)"
    and readable: "\<forall>ch \<in> set (signal_channels (trace_data c)).
                 \<not> isl (get_trace (trace_data c) ch t)"
    and rest: "\<forall>t \<in> set ts. t < length (valid_traces_array b) \<and> t < length (peak_array b)
           \<and> (\<forall>ch \<in> set (signal_channels (trace_data c)).
                 \<not> isl (get_trace (trace_data c) ch t))"
    by simp_all
  show ?case
  proof (cases "valid_traces_array b ! t")
    case False
    then have "cut_and_modify_traces c b t n = Inr (b, 0)"
      using t by (simp add: cut_and_modify_traces_def)
    with False Cons.IH [OF rest, of count] show ?thesis
      by (simp add: cut_rows_Cons split: sum.splits)
  next
    case True
    let ?calls = "map (\<lambda>ch. (ch, modified (cut_trace (source_row c ch t)
                  (fst (peak_array b ! t) + fst (region_around_peak b)) n)))
             (signal_channels (trace_data c))"
    have step: "cut_and_modify_traces c b t n =
        (case add_traces (new_trace_data b) ?calls of
           Inl e \<Rightarrow> Inl e
         | Inr out \<Rightarrow> Inr (b\<lparr>new_trace_data := out\<rparr>, 1))"
      using True t cut_channels_as_add_traces [OF assms(1) readable]
      by (simp add: cut_and_modify_traces_def)
    show ?thesis
    proof (cases "add_traces (new_trace_data b) ?calls")
      case (Inl e)
      with step True show ?thesis
        by (simp add: cut_rows_Cons add_traces_append)
    next
      case (Inr out1)
      let ?b1 = "b\<lparr>new_trace_data := out1\<rparr>"
      have rest1: "\<forall>t \<in> set ts. t < length (valid_traces_array ?b1)
           \<and> t < length (peak_array ?b1)
           \<and> (\<forall>ch \<in> set (signal_channels (trace_data c)).
                 \<not> isl (get_trace (trace_data c) ch t))"
        using rest by simp
      from Cons.IH [OF rest1, of "count + 1"] step Inr True show ?thesis
        by (simp add: cut_rows_Cons add_traces_append cut_rows_new_trace_data
              split: sum.splits)
    qed
  qed
qed

lemma register_signal_channels_returns:
  assumes "0 \<le> n"
  shows "\<exists>b2. register_signal_channels c b n = Inr b2
          \<and> valid_traces_array b2 = valid_traces_array b
          \<and> peak_array b2 = peak_array b
          \<and> region_around_peak b2 = region_around_peak b
          \<and> records_written (new_trace_data b2) = records_written (new_trace_data b)
          \<and> number_of_traces (new_trace_data b2) = length (filter id (valid_traces_array b))
          \<and> (\<forall>ch \<in> set (signal_channels (trace_data c)).
                registered (new_trace_data b2) ch (nat n))"
  using assms
  by (auto simp add: register_signal_channels_def signal_channels_def register_data_file_def
        registered_def set_number_of_traces_def list_all_iff Let_def)

lemma cut_rows_same_marks:
  assumes "valid_traces_array b2 = valid_traces_array b" and "peak_array b2 = peak_array b"
    and "region_around_peak b2 = region_around_peak b"
  shows "cut_rows c b2 modified n ts = cut_rows c b modified n ts"
  using assms by (simp add: cut_rows_def)

lemma cut_rows_lengths:
  assumes "0 \<le> n" and "\<forall>x. length (modified x) = length x"
  shows "list_all (\<lambda>(ch, row). length row = nat n) (cut_rows c b modified n ts)"
  using assms by (auto simp add: cut_rows_def list_all_iff length_cut_trace)

lemma cut_rows_channels:
  "(ch, row) \<in> set (cut_rows c b modified n ts) \<Longrightarrow> ch \<in> set (signal_channels (trace_data c))"
  by (auto simp add: cut_rows_def)


lemma add_traces_keeps_registered:
  "add_traces s calls = Inr s' \<Longrightarrow> registered s ch len \<Longrightarrow> registered s' ch len"
proof (induction calls arbitrary: s)
  case Nil
  then show ?case by simp
next
  case (Cons call calls)
  obtain ch0 row0 where call: "call = (ch0, row0)" by (cases call)
  from Cons.prems(1) obtain s1 where
    "add_trace s ch0 row0 = Inr s1" "add_traces s1 calls = Inr s'"
    by (auto simp add: call split: sum.splits)
  with Cons.IH Cons.prems(2) show ?case
    using add_trace_keeps_registered by blast
qed

lemma cutting_succeeds:
  assumes n: "0 \<le> n"
    and modified: "\<forall>x. run_modifying_filter (filters c) (filter_dict c) x = Inr (modified x)
                      \<and> length (modified x) = length x"
    and ts: "\<forall>t \<in> set ts. t < length (valid_traces_array b) \<and> t < length (peak_array b)
               \<and> (\<forall>chn \<in> set (signal_channels (trace_data c)).
                     \<not> isl (get_trace (trace_data c) chn t))"
    and fresh: "records_written (new_trace_data b) = 0"
  shows "\<exists>b2 out. register_signal_channels c b n = Inr b2
          \<and> cut_loop c b2 n 0 ts =
                Inr (b2\<lparr>new_trace_data := out\<rparr>,
                     length (filter (\<lambda>t. valid_traces_array b ! t) ts))
          \<and> add_traces (new_trace_data b2) (cut_rows c b modified n ts) = Inr out
          \<and> list_all (\<lambda>(chn, row). length row = nat n) (cut_rows c b modified n ts)
          \<and> (\<forall>chn \<in> set (signal_channels (trace_data c)).
                \<exists>arr. npy_mm out chn = Some arr
                  \<and> length arr = length (filter id (valid_traces_array b))
                  \<and> list_all (\<lambda>row. length row = nat n) arr
                  \<and> (\<forall>j < length arr.
                        j < length (cut_rows c b modified n ts)
                        \<and> fst (cut_rows c b modified n ts ! j) = chn
                        \<longrightarrow> arr ! j = snd (cut_rows c b modified n ts ! j)))"
proof -
  let ?calls = "cut_rows c b modified n ts"
  from register_signal_channels_returns [OF n, of c b] obtain b2 where
    b2: "register_signal_channels c b n = Inr b2"
      "valid_traces_array b2 = valid_traces_array b" "peak_array b2 = peak_array b"
      "region_around_peak b2 = region_around_peak b"
      "records_written (new_trace_data b2) = records_written (new_trace_data b)"
      "number_of_traces (new_trace_data b2) = length (filter id (valid_traces_array b))"
      "\<forall>chn \<in> set (signal_channels (trace_data c)). registered (new_trace_data b2) chn (nat n)"
    by blast
  have same: "cut_rows c b2 modified n ts = ?calls"
    by (rule cut_rows_same_marks [OF b2(2,3,4)])
  have lens: "list_all (\<lambda>(chn, row). length row = nat n) ?calls"
    using n modified by (simp add: cut_rows_lengths)
  have m1: "\<forall>x. run_modifying_filter (filters c) (filter_dict c) x = Inr (modified x)"
    using modified by simp
  have ts2: "\<forall>t \<in> set ts. t < length (valid_traces_array b2) \<and> t < length (peak_array b2)
               \<and> (\<forall>chn \<in> set (signal_channels (trace_data c)).
                     \<not> isl (get_trace (trace_data c) chn t))"
    using ts b2(2,3) by simp
  have loop: "cut_loop c b2 n 0 ts =
           (case add_traces (new_trace_data b2) ?calls of
              Inl e \<Rightarrow> Inl e
            | Inr out \<Rightarrow>
                Inr (b2\<lparr>new_trace_data := out\<rparr>,
                     0 + length (filter (\<lambda>t. valid_traces_array b2 ! t) ts)))"
    using cut_loop_as_add_traces [OF m1 ts2, of n 0] same by simp
  have w: "records_written (new_trace_data b2) \<le> number_of_traces (new_trace_data b2)"
    using b2(5) fresh by simp
  have reg: "\<forall>(chn, row) \<in> set ?calls. registered (new_trace_data b2) chn (length row)"
  proof (clarify)
    fix chn row assume in_calls: "(chn, row) \<in> set ?calls"
    then have "chn \<in> set (signal_channels (trace_data c))" by (rule cut_rows_channels)
    with b2(7) have "registered (new_trace_data b2) chn (nat n)" by blast
    moreover from lens in_calls have "length row = nat n" by (auto simp add: list_all_iff)
    ultimately show "registered (new_trace_data b2) chn (length row)" by simp
  qed
  from add_traces_rows [OF w reg] obtain out where
    out: "add_traces (new_trace_data b2) ?calls = Inr out"
      "\<forall>chn arr. npy_mm (new_trace_data b2) chn = Some arr \<longrightarrow>
          (\<exists>arr'. npy_mm out chn = Some arr' \<and> length arr' = length arr
             \<and> (\<forall>j < length arr. arr' ! j =
                   (if records_written (new_trace_data b2) \<le> j
                       \<and> j < records_written (new_trace_data b2) + length ?calls
                       \<and> j < number_of_traces (new_trace_data b2)
                       \<and> fst (?calls ! (j - records_written (new_trace_data b2))) = chn
                    then snd (?calls ! (j - records_written (new_trace_data b2)))
                    else arr ! j)))"
    by blast
  have rows: "\<forall>chn \<in> set (signal_channels (trace_data c)).
                \<exists>arr. npy_mm out chn = Some arr
                  \<and> length arr = length (filter id (valid_traces_array b))
                  \<and> list_all (\<lambda>row. length row = nat n) arr
                  \<and> (\<forall>j < length arr.
                        j < length ?calls \<and> fst (?calls ! j) = chn
                        \<longrightarrow> arr ! j = snd (?calls ! j))"
  proof
    fix chn assume chn: "chn \<in> set (signal_channels (trace_data c))"
    with b2(7) have r2: "registered (new_trace_data b2) chn (nat n)" by blast
    then obtain arr0 where arr0: "npy_mm (new_trace_data b2) chn = Some arr0"
      "length arr0 = number_of_traces (new_trace_data b2)"
      by (auto simp add: registered_def split: option.splits)
    from out(2) arr0(1) obtain arr where arr: "npy_mm out chn = Some arr"
      "length arr = length arr0"
      "\<forall>j < length arr0. arr ! j =
                   (if records_written (new_trace_data b2) \<le> j
                       \<and> j < records_written (new_trace_data b2) + length ?calls
                       \<and> j < number_of_traces (new_trace_data b2)
                       \<and> fst (?calls ! (j - records_written (new_trace_data b2))) = chn
                    then snd (?calls ! (j - records_written (new_trace_data b2)))
                    else arr0 ! j)"
      by blast
    have w0: "records_written (new_trace_data b2) = 0" using b2(5) fresh by simp
    from add_traces_keeps_registered [OF out(1) r2] arr(1)
    have la: "list_all (\<lambda>row. length row = nat n) arr" by (simp add: registered_def)
    have "\<forall>j < length arr. j < length ?calls \<and> fst (?calls ! j) = chn
                        \<longrightarrow> arr ! j = snd (?calls ! j)"
    proof (intro allI impI)
      fix j assume j: "j < length arr" and c: "j < length ?calls \<and> fst (?calls ! j) = chn"
      from j arr(2) have j0: "j < length arr0" by simp
      with arr(3) have "arr ! j =
                   (if records_written (new_trace_data b2) \<le> j
                       \<and> j < records_written (new_trace_data b2) + length ?calls
                       \<and> j < number_of_traces (new_trace_data b2)
                       \<and> fst (?calls ! (j - records_written (new_trace_data b2))) = chn
                    then snd (?calls ! (j - records_written (new_trace_data b2)))
                    else arr0 ! j)" by blast
      with w0 c j0 arr0(2) show "arr ! j = snd (?calls ! j)" by simp
    qed
    with arr(1,2) arr0(2) b2(6) la
    show "\<exists>arr. npy_mm out chn = Some arr
                  \<and> length arr = length (filter id (valid_traces_array b))
                  \<and> list_all (\<lambda>row. length row = nat n) arr
                  \<and> (\<forall>j < length arr.
                        j < length ?calls \<and> fst (?calls ! j) = chn
                        \<longrightarrow> arr ! j = snd (?calls ! j))"
      by simp
  qed
  from loop out(1) b2(2) have
    "cut_loop c b2 n 0 ts =
       Inr (b2\<lparr>new_trace_data := out\<rparr>, length (filter (\<lambda>t. valid_traces_array b ! t) ts))"
    by simp
  with b2(1) out(1) lens rows show ?thesis by blast
qed

lemma classify_keeps_new_trace_data:
  "classify b tracenr modify_data temp xm = Inr b' \<Longrightarrow> new_trace_data b' = new_trace_data b"
  by (auto simp add: classify_def store_valid_peak_def store_valid_def store_peak_def
        split: option.splits list.splits if_splits sum.splits)

lemma run_filters_and_triggers_keeps_new_trace_data:
  "run_filters_and_triggers c b tracenr = Inr b' \<Longrightarrow> new_trace_data b' = new_trace_data b"
  by (auto simp add: run_filters_and_triggers_chain classify_keeps_new_trace_data
        split: sum.splits)

lemma scan_keeps_new_trace_data:
  "scan c b ts = Inr b1 \<Longrightarrow> new_trace_data b1 = new_trace_data b"
proof (induction ts arbitrary: b)
  case Nil
  then show ?case by simp
next
  case (Cons t ts)
  from Cons.prems obtain b' where
    step: "run_filters_and_triggers c b t = Inr b'" and rest: "scan c b' ts = Inr b1"
    by (auto split: sum.splits)
  from Cons.IH [OF rest] run_filters_and_triggers_keeps_new_trace_data [OF step]
  show ?case by simp
qed

lemma run_after_scanning:
  assumes scan: "scan c b [0..<trace_count c] = Inr b1"
    and len: "new_trace_length b1 = Inr n"
    and reg: "register_signal_channels c b1 n = Inr b2"
    and loop: "cut_loop c b2 n 0 [0..<trace_count c] = Inr (b2\<lparr>new_trace_data := out\<rparr>, written)"
  shows "run c b =
           (case finalize_new_traces c (b2\<lparr>new_trace_data := out\<rparr>) of
              Inl e \<Rightarrow> Inl e
            | Inr b4 \<Rightarrow> Inr (b4, n))"
  by (simp add: run_def scan len reg loop)

lemma length_tobytes: "length (tobytes isize row) = length row * isize"
  by (induction row) (simp_all add: tobytes_def)

lemma structured_channel_rows:
  assumes "\<forall>row \<in> set rows. length row = len"
  shows "file_data (addTraces (prepareForRecord declared len isize DIRECTWRITE)
             (map (tobytes isize) rows)) = concat (map (tobytes isize) rows)
       \<and> recordsWritten (addTraces (prepareForRecord declared len isize DIRECTWRITE)
             (map (tobytes isize) rows)) = length rows"
proof -
  let ?d = "prepareForRecord declared len isize DIRECTWRITE"
  have a: "saveMethod ?d = DIRECTWRITE" and b: "recording ?d"
    by (simp_all add: prepareForRecord_def)
  have c: "\<forall>bytes \<in> set (map (tobytes isize) rows). length bytes = row_length ?d * itemsize ?d"
    using assms by (auto simp add: prepareForRecord_def length_tobytes)
  from addTraces_DIRECTWRITE [OF a b c] show ?thesis
    by (simp add: prepareForRecord_def)
qed

lemma channel_rows_lengths:
  assumes "list_all (\<lambda>(chn, row). length row = len) calls"
  shows "\<forall>row \<in> set (channel_rows ch calls). length row = len"
  using assms by (auto simp add: channel_rows_def list_all_iff)

text \<open>
  C6: a cut has exactly \<open>new_length\<close> samples.  The cut of a trace at \<open>start\<close> with a
  length \<open>n \<ge> 0\<close> has \<open>n\<close> samples; for \<open>start \<ge> 0\<close> its sample \<open>i\<close> is sample \<open>start + i\<close> of
  the trace where the trace has one, and zero past the end of the trace.  For a valid
  trace the cut starts at \<open>anchor1 + region_start\<close>.  When a run returns, every signal
  channel of the new data set is an array of one row per valid trace, each of
  \<open>new_length\<close> samples.

  The cutting phase does not fail: when the source has the traces and the modifying
  filters keep the length of a cut (\<open>modified\<close> is what they compute), the registration
  and the cut loop return, and the rows that the loop passes to \<open>add_trace\<close> are the cuts
  \<open>cut_trace\<close> of the valid traces at \<open>anchor1 + region_start\<close>, each of \<open>new_length\<close>
  samples, channel by channel and trace by trace; every row of the new arrays that was
  written holds the cut passed for it.  After a scan that returned, with the length
  \<open>run\<close> computes, the run can then only fail in finalizing the plaintext and ciphertext
  channels.  On a channel of the structured backend registered with the same length,
  the same rows fill the channel file with one record of \<open>new_length\<close> samples each.
\<close>

theorem cut_traces_have_the_new_length:
  "(0 \<le> n \<longrightarrow> length (cut_trace tr start n) = nat n)
   \<and> (0 \<le> start \<and> 0 \<le> n \<and> i < nat n \<longrightarrow>
        cut_trace tr start n ! i = (if nat start + i < length tr then tr ! (nat start + i) else 0))
   \<and> (tracenr < length (valid_traces_array b) \<and> valid_traces_array b ! tracenr
        \<and> tracenr < length (peak_array b) \<longrightarrow>
        cut_and_modify_traces c b tracenr n =
          (case cut_channels c tracenr
                  (fst (peak_array b ! tracenr) + fst (region_around_peak b)) n
                  (new_trace_data b) (signal_channels (trace_data c)) of
             Inl e \<Rightarrow> Inl e
           | Inr out \<Rightarrow> Inr (b\<lparr>new_trace_data := out\<rparr>, 1)))
   \<and> (run c b = Inr (b', len) \<and> ch \<in> set (signal_channels (trace_data c)) \<longrightarrow>
        0 \<le> len \<and> registered (new_trace_data b') ch (nat len))
   \<and> (0 \<le> n
        \<and> (\<forall>x. run_modifying_filter (filters c) (filter_dict c) x = Inr (modified x)
                 \<and> length (modified x) = length x)
        \<and> (\<forall>t \<in> set ts. t < length (valid_traces_array b) \<and> t < length (peak_array b)
               \<and> int64_cut b t
               \<and> (\<forall>chn \<in> set (signal_channels (trace_data c)).
                     \<not> isl (get_trace (trace_data c) chn t)))
        \<and> records_written (new_trace_data b) = 0
        \<longrightarrow> (\<exists>registered_state out.
                register_signal_channels c b n = Inr registered_state
              \<and> cut_loop c registered_state n 0 ts =
                    Inr (registered_state\<lparr>new_trace_data := out\<rparr>,
                         length (filter (\<lambda>t. valid_traces_array b ! t) ts))
              \<and> add_traces (new_trace_data registered_state) (cut_rows c b modified n ts)
                    = Inr out
              \<and> list_all (\<lambda>(chn, row). length row = nat n) (cut_rows c b modified n ts)
              \<and> (\<forall>chn \<in> set (signal_channels (trace_data c)).
                    \<exists>arr. npy_mm out chn = Some arr
                      \<and> length arr = length (filter id (valid_traces_array b))
                      \<and> list_all (\<lambda>row. length row = nat n) arr
                      \<and> (\<forall>j < length arr.
                            j < length (cut_rows c b modified n ts)
                            \<and> fst (cut_rows c b modified n ts ! j) = chn
                            \<longrightarrow> arr ! j = snd (cut_rows c b modified n ts ! j)))
              \<and> (scan c initial [0..<trace_count c] = Inr b \<and> new_trace_length b = Inr n
                  \<and> int64_length b \<and> ts = [0..<trace_count c]
                  \<longrightarrow> run c initial =
                        (case finalize_new_traces c (registered_state\<lparr>new_trace_data := out\<rparr>) of
                           Inl e \<Rightarrow> Inl e
                         | Inr finalized \<Rightarrow> Inr (finalized, n)))))
   \<and> (0 \<le> n \<and> (\<forall>x. length (modified x) = length x) \<longrightarrow>
        file_data (addTraces (prepareForRecord declared (nat n) isize DIRECTWRITE)
            (map (tobytes isize) (channel_rows channel (cut_rows c b modified n ts))))
          = concat (map (tobytes isize) (channel_rows channel (cut_rows c b modified n ts)))
        \<and> recordsWritten (addTraces (prepareForRecord declared (nat n) isize DIRECTWRITE)
            (map (tobytes isize) (channel_rows channel (cut_rows c b modified n ts))))
          = length (channel_rows channel (cut_rows c b modified n ts))
        \<and> list_all (\<lambda>bytes. length bytes = nat n * isize)
            (map (tobytes isize) (channel_rows channel (cut_rows c b modified n ts))))"
proof (intro conjI impI)
  assume "0 \<le> n"
  then show "length (cut_trace tr start n) = nat n" by (rule length_cut_trace)
next
  assume "0 \<le> start \<and> 0 \<le> n \<and> i < nat n"
  then show "cut_trace tr start n ! i =
      (if nat start + i < length tr then tr ! (nat start + i) else 0)"
    by (simp add: nth_cut_trace)
next
  assume "tracenr < length (valid_traces_array b) \<and> valid_traces_array b ! tracenr
        \<and> tracenr < length (peak_array b)"
  then show "cut_and_modify_traces c b tracenr n =
          (case cut_channels c tracenr
                  (fst (peak_array b ! tracenr) + fst (region_around_peak b)) n
                  (new_trace_data b) (signal_channels (trace_data c)) of
             Inl e \<Rightarrow> Inl e
           | Inr out \<Rightarrow> Inr (b\<lparr>new_trace_data := out\<rparr>, 1))"
    by (simp add: cut_and_modify_traces_def)
next
  assume h: "run c b = Inr (b', len) \<and> ch \<in> set (signal_channels (trace_data c))"
  then show "0 \<le> len" using run_rows_registered [of c b b' len ch] by simp
  from h show "registered (new_trace_data b') ch (nat len)"
    using run_rows_registered [of c b b' len ch] by simp
next
  assume h: "0 \<le> n
        \<and> (\<forall>x. run_modifying_filter (filters c) (filter_dict c) x = Inr (modified x)
                 \<and> length (modified x) = length x)
        \<and> (\<forall>t \<in> set ts. t < length (valid_traces_array b) \<and> t < length (peak_array b)
               \<and> int64_cut b t
               \<and> (\<forall>chn \<in> set (signal_channels (trace_data c)).
                     \<not> isl (get_trace (trace_data c) chn t)))
        \<and> records_written (new_trace_data b) = 0"
  then have n: "0 \<le> n"
    and modified: "\<forall>x. run_modifying_filter (filters c) (filter_dict c) x = Inr (modified x)
                      \<and> length (modified x) = length x"
    and fresh: "records_written (new_trace_data b) = 0"
    by simp_all
  from h have ts: "\<forall>t \<in> set ts. t < length (valid_traces_array b) \<and> t < length (peak_array b)
               \<and> (\<forall>chn \<in> set (signal_channels (trace_data c)).
                     \<not> isl (get_trace (trace_data c) chn t))"
    by blast
  from cutting_succeeds [OF n modified ts fresh] obtain b2 out where
    reg: "register_signal_channels c b n = Inr b2"
    and loop: "cut_loop c b2 n 0 ts =
                 Inr (b2\<lparr>new_trace_data := out\<rparr>,
                      length (filter (\<lambda>t. valid_traces_array b ! t) ts))"
    and written: "add_traces (new_trace_data b2) (cut_rows c b modified n ts) = Inr out"
    and lens: "list_all (\<lambda>(chn, row). length row = nat n) (cut_rows c b modified n ts)"
    and rows: "\<forall>chn \<in> set (signal_channels (trace_data c)).
                    \<exists>arr. npy_mm out chn = Some arr
                      \<and> length arr = length (filter id (valid_traces_array b))
                      \<and> list_all (\<lambda>row. length row = nat n) arr
                      \<and> (\<forall>j < length arr.
                            j < length (cut_rows c b modified n ts)
                            \<and> fst (cut_rows c b modified n ts ! j) = chn
                            \<longrightarrow> arr ! j = snd (cut_rows c b modified n ts ! j))"
    by (elim exE conjE) (rule that)
  have whole: "scan c initial [0..<trace_count c] = Inr b \<and> new_trace_length b = Inr n
                  \<and> int64_length b \<and> ts = [0..<trace_count c]
                  \<longrightarrow> run c initial =
                        (case finalize_new_traces c (b2\<lparr>new_trace_data := out\<rparr>) of
                           Inl e \<Rightarrow> Inl e
                         | Inr finalized \<Rightarrow> Inr (finalized, n))"
  proof
    assume a: "scan c initial [0..<trace_count c] = Inr b \<and> new_trace_length b = Inr n
                  \<and> int64_length b \<and> ts = [0..<trace_count c]"
    then have s: "scan c initial [0..<trace_count c] = Inr b"
      and l: "new_trace_length b = Inr n" and t: "ts = [0..<trace_count c]"
      by simp_all
    from run_after_scanning [OF s l reg loop [unfolded t]]
    show "run c initial =
            (case finalize_new_traces c (b2\<lparr>new_trace_data := out\<rparr>) of
               Inl e \<Rightarrow> Inl e
             | Inr finalized \<Rightarrow> Inr (finalized, n))" .
  qed
  show "\<exists>registered_state out.
                register_signal_channels c b n = Inr registered_state
              \<and> cut_loop c registered_state n 0 ts =
                    Inr (registered_state\<lparr>new_trace_data := out\<rparr>,
                         length (filter (\<lambda>t. valid_traces_array b ! t) ts))
              \<and> add_traces (new_trace_data registered_state) (cut_rows c b modified n ts)
                    = Inr out
              \<and> list_all (\<lambda>(chn, row). length row = nat n) (cut_rows c b modified n ts)
              \<and> (\<forall>chn \<in> set (signal_channels (trace_data c)).
                    \<exists>arr. npy_mm out chn = Some arr
                      \<and> length arr = length (filter id (valid_traces_array b))
                      \<and> list_all (\<lambda>row. length row = nat n) arr
                      \<and> (\<forall>j < length arr.
                            j < length (cut_rows c b modified n ts)
                            \<and> fst (cut_rows c b modified n ts ! j) = chn
                            \<longrightarrow> arr ! j = snd (cut_rows c b modified n ts ! j)))
              \<and> (scan c initial [0..<trace_count c] = Inr b \<and> new_trace_length b = Inr n
                  \<and> int64_length b \<and> ts = [0..<trace_count c]
                  \<longrightarrow> run c initial =
                        (case finalize_new_traces c (registered_state\<lparr>new_trace_data := out\<rparr>) of
                           Inl e \<Rightarrow> Inl e
                         | Inr finalized \<Rightarrow> Inr (finalized, n)))"
    by (intro exI conjI) (rule reg, rule loop, rule written, rule lens, rule rows, rule whole)
next
  assume h: "0 \<le> n \<and> (\<forall>x. length (modified x) = length x)"
  then have "list_all (\<lambda>(chn, row). length row = nat n) (cut_rows c b modified n ts)"
    by (simp add: cut_rows_lengths)
  then have l: "\<forall>row \<in> set (channel_rows channel (cut_rows c b modified n ts)).
                  length row = nat n"
    by (rule channel_rows_lengths)
  from structured_channel_rows [OF l]
  show "file_data (addTraces (prepareForRecord declared (nat n) isize DIRECTWRITE)
            (map (tobytes isize) (channel_rows channel (cut_rows c b modified n ts))))
          = concat (map (tobytes isize) (channel_rows channel (cut_rows c b modified n ts)))"
    by simp
  from structured_channel_rows [OF l]
  show "recordsWritten (addTraces (prepareForRecord declared (nat n) isize DIRECTWRITE)
            (map (tobytes isize) (channel_rows channel (cut_rows c b modified n ts))))
          = length (channel_rows channel (cut_rows c b modified n ts))"
    by simp
  from l show "list_all (\<lambda>bytes. length bytes = nat n * isize)
            (map (tobytes isize) (channel_rows channel (cut_rows c b modified n ts)))"
    by (simp add: list_all_iff length_tobytes)
qed

theorem cut_traces_have_the_new_length_witness:
  "scan_summary
     (example_config [] [(''threshold_trigger'', threshold_params)]
        [[0, 9, 9, 9, 0, 0], [0, 0, 0, 9, 9, 0]])
     (-1, 1) = Inr ([(1, 4), (3, 5)], [True, True], (-1, 1))
   \<and> cut_trace [0, 0, 0, 9, 9, 0] 2 5 = [0, 9, 9, 0, 0]
   \<and> (\<exists>scanned_state registered_state out.
          scan
            (example_config [] [(''threshold_trigger'', threshold_params)]
               [[0, 9, 9, 9, 0, 0], [0, 0, 0, 9, 9, 0]])
            (init_state
               (example_config [] [(''threshold_trigger'', threshold_params)]
                  [[0, 9, 9, 9, 0, 0], [0, 0, 0, 9, 9, 0]])
               (-1, 1))
            [0, 1] = Inr scanned_state
          \<and> cut_rows
                (example_config [] [(''threshold_trigger'', threshold_params)]
                   [[0, 9, 9, 9, 0, 0], [0, 0, 0, 9, 9, 0]])
                scanned_state (\<lambda>x. x) 5 [0, 1]
              = [(''em'', [0, 9, 9, 9, 0]), (''em'', [0, 9, 9, 0, 0])]
          \<and> register_signal_channels
                (example_config [] [(''threshold_trigger'', threshold_params)]
                   [[0, 9, 9, 9, 0, 0], [0, 0, 0, 9, 9, 0]])
                scanned_state 5 = Inr registered_state
          \<and> cut_loop
                (example_config [] [(''threshold_trigger'', threshold_params)]
                   [[0, 9, 9, 9, 0, 0], [0, 0, 0, 9, 9, 0]])
                registered_state 5 0 [0, 1]
              = Inr (registered_state\<lparr>new_trace_data := out\<rparr>, 2)
          \<and> add_traces (new_trace_data registered_state)
                [(''em'', [0, 9, 9, 9, 0]), (''em'', [0, 9, 9, 0, 0])] = Inr out
          \<and> npy_mm out ''em'' = Some [[0, 9, 9, 9, 0], [0, 9, 9, 0, 0]]
          \<and> run
                (example_config [] [(''threshold_trigger'', threshold_params)]
                   [[0, 9, 9, 9, 0, 0], [0, 0, 0, 9, 9, 0]])
                (init_state
                   (example_config [] [(''threshold_trigger'', threshold_params)]
                      [[0, 9, 9, 9, 0, 0], [0, 0, 0, 9, 9, 0]])
                   (-1, 1))
              = Inr (registered_state\<lparr>new_trace_data := out\<rparr>, 5)
          \<and> registered out ''em'' 5)
   \<and> run_summary
         (example_config [] [(''threshold_trigger'', threshold_params)]
            [[0, 9, 9, 9, 0, 0], [0, 0, 0, 9, 9, 0]])
         (-1, 1) ''em'' = Inr (5, Some [[0, 9, 9, 9, 0], [0, 9, 9, 0, 0]])
   \<and> file_data (addTraces (prepareForRecord 2 5 2 DIRECTWRITE)
         (map (tobytes 2) [[0, 9, 9, 9, 0], [0, 9, 9, 0, 0]]))
       = [0, 0, 9, 0, 9, 0, 9, 0, 0, 0, 0, 0, 9, 0, 9, 0, 0, 0, 0, 0]
   \<and> recordsWritten (addTraces (prepareForRecord 2 5 2 DIRECTWRITE)
         (map (tobytes 2) [[0, 9, 9, 9, 0], [0, 9, 9, 0, 0]])) = 2"
proof -
  let ?c = "example_config [] [(''threshold_trigger'', threshold_params)]
              [[0, 9, 9, 9, 0, 0], [0, 0, 0, 9, 9, 0]]"
  let ?init = "init_state ?c (-1, 1)"
  let ?b = "?init\<lparr>valid_traces_array := [True, True], peak_array := [(1, 4), (3, 5)]\<rparr>"
  let ?rows = "[(''em'', [0, 9, 9, 9, 0]), (''em'', [0, 9, 9, 0, 0])] :: (string \<times> trace) list"
  have sc: "scan_summary ?c (-1, 1) = Inr ([(1, 4), (3, 5)], [True, True], (-1, 1))"
    by code_simp
  have ev: "run_summary ?c (-1, 1) ''em'' = Inr (5, Some [[0, 9, 9, 9, 0], [0, 9, 9, 0, 0]])"
    by code_simp
  have cut: "cut_trace [0, 0, 0, 9, 9, 0] 2 5 = [0, 9, 9, 0, 0]" by code_simp
  have calls: "cut_rows ?c ?b (\<lambda>x. x) 5 [0, 1] = ?rows" by code_simp
  have chs: "signal_channels (trace_data ?c) = [''em'']" by code_simp
  have fd: "filter_dict ?c = []" by code_simp
  have upt: "[0..<trace_count ?c] = [0, 1]" by code_simp
  have no_plain: "\<not> has_plain (trace_data ?c)" and no_cipher: "\<not> has_cipher (trace_data ?c)"
    by code_simp+
  have fresh0: "records_written (new_trace_data ?init) = 0" by code_simp
  have r0: "\<not> isl (get_trace (trace_data ?c) ''em'' 0)"
    and r1: "\<not> isl (get_trace (trace_data ?c) ''em'' 1)" by code_simp+
  from sc obtain b1 where scan: "scan ?c ?init [0..<trace_count ?c] = Inr b1"
    and pk: "peak_array b1 = [(1, 4), (3, 5)]"
    and vl: "valid_traces_array b1 = [True, True]"
    and rg: "region_around_peak b1 = (-1, 1)"
    by (auto simp add: scan_summary_def split: sum.splits)
  from scan_keeps_new_trace_data [OF scan] fresh0
  have h4: "records_written (new_trace_data b1) = 0" by simp
  have calls1: "cut_rows ?c b1 (\<lambda>x. x) 5 [0, 1] = ?rows"
    unfolding calls [symmetric] by (rule cut_rows_same_marks) (simp_all add: pk vl rg init_state_def)
  have len: "new_trace_length b1 = Inr 5" by (simp add: new_trace_length_def pk rg)
  have h1: "(0::int) \<le> 5" by simp
  have h2: "\<forall>x. run_modifying_filter (filters ?c) (filter_dict ?c) x = Inr ((\<lambda>x. x) x)
                 \<and> length ((\<lambda>x. x) x) = length x"
    by (simp add: fd)
  have h3: "\<forall>t \<in> set [0, 1]. t < length (valid_traces_array b1) \<and> t < length (peak_array b1)
               \<and> int64_cut b1 t
               \<and> (\<forall>chn \<in> set (signal_channels (trace_data ?c)).
                     \<not> isl (get_trace (trace_data ?c) chn t))"
    using r0 r1 by (simp add: chs pk vl rg int64_cut_def in_int64_def)
  have i64: "int64_length b1" by (simp add: int64_length_def pk rg in_int64_def)
  note inst = cut_traces_have_the_new_length [where c = ?c and b = b1 and n = 5
      and modified = "\<lambda>x. x" and ts = "[0, 1]" and initial = ?init
      and declared = 2 and isize = 2 and channel = "''em''"]
  note succeeds = inst [THEN conjunct2, THEN conjunct2, THEN conjunct2, THEN conjunct2,
      THEN conjunct1, THEN mp, OF conjI [OF h1 conjI [OF h2 conjI [OF h3 h4]]]]
  from succeeds obtain b2 out where
    reg: "register_signal_channels ?c b1 5 = Inr b2"
    and lp: "cut_loop ?c b2 5 0 [0, 1] =
         Inr (b2\<lparr>new_trace_data := out\<rparr>, length (filter (\<lambda>t. valid_traces_array b1 ! t) [0, 1]))"
    and written: "add_traces (new_trace_data b2) (cut_rows ?c b1 (\<lambda>x. x) 5 [0, 1]) = Inr out"
    and lens: "list_all (\<lambda>(chn, row). length row = nat 5) (cut_rows ?c b1 (\<lambda>x. x) 5 [0, 1])"
    and rows: "\<forall>chn \<in> set (signal_channels (trace_data ?c)).
                    \<exists>arr. npy_mm out chn = Some arr
                      \<and> length arr = length (filter id (valid_traces_array b1))
                      \<and> list_all (\<lambda>row. length row = nat 5) arr
                      \<and> (\<forall>j < length arr.
                            j < length (cut_rows ?c b1 (\<lambda>x. x) 5 [0, 1])
                            \<and> fst (cut_rows ?c b1 (\<lambda>x. x) 5 [0, 1] ! j) = chn
                            \<longrightarrow> arr ! j = snd (cut_rows ?c b1 (\<lambda>x. x) 5 [0, 1] ! j))"
    and whole: "scan ?c ?init [0..<trace_count ?c] = Inr b1 \<and> new_trace_length b1 = Inr 5
                  \<and> int64_length b1 \<and> [0, 1] = [0..<trace_count ?c]
                  \<longrightarrow> run ?c ?init =
                        (case finalize_new_traces ?c (b2\<lparr>new_trace_data := out\<rparr>) of
                           Inl e \<Rightarrow> Inl e
                         | Inr finalized \<Rightarrow> Inr (finalized, 5))"
    by (elim exE conjE) (rule that)
  have em_in: "''em'' \<in> set (signal_channels (trace_data ?c))" unfolding chs by simp
  from bspec [OF rows em_in] obtain arr where
    arr: "npy_mm out ''em'' = Some arr"
    and la: "length arr = length (filter id (valid_traces_array b1))"
    and all5: "list_all (\<lambda>row. length row = nat 5) arr"
    and same: "\<forall>j < length arr. j < length (cut_rows ?c b1 (\<lambda>x. x) 5 [0, 1])
        \<and> fst (cut_rows ?c b1 (\<lambda>x. x) 5 [0, 1] ! j) = ''em''
        \<longrightarrow> arr ! j = snd (cut_rows ?c b1 (\<lambda>x. x) 5 [0, 1] ! j)"
    by (elim exE conjE) (rule that)
  from la have l2: "length arr = 2" by (simp add: vl)
  note same2 = same [unfolded calls1 l2]
  from same2 [rule_format, of 0] have a0: "arr ! 0 = [0, 9, 9, 9, 0]" by simp
  from same2 [rule_format, of 1] have a1: "arr ! 1 = [0, 9, 9, 0, 0]" by simp
  from l2 obtain x y where xy: "arr = [x, y]"
    by (auto simp add: numeral_2_eq_2 length_Suc_conv)
  from a0 a1 have "arr = [[0, 9, 9, 9, 0], [0, 9, 9, 0, 0]]" unfolding xy by simp
  with arr have em: "npy_mm out ''em'' = Some [[0, 9, 9, 9, 0], [0, 9, 9, 0, 0]]" by simp
  from lp have loop: "cut_loop ?c b2 5 0 [0, 1] = Inr (b2\<lparr>new_trace_data := out\<rparr>, 2)"
    by (simp add: vl)
  have fin: "finalize_new_traces ?c (b2\<lparr>new_trace_data := out\<rparr>)
               = Inr (b2\<lparr>new_trace_data := out\<rparr>)"
    using no_plain no_cipher by (simp add: finalize_new_traces_def)
  from whole [THEN mp, OF conjI [OF scan conjI [OF len conjI [OF i64 upt [symmetric]]]]]
  have run: "run ?c ?init = Inr (b2\<lparr>new_trace_data := out\<rparr>, 5)"
    unfolding fin by simp
  have em_ch: "''em'' \<in> set (signal_channels (trace_data ?c))" by (rule em_in)
  from cut_traces_have_the_new_length [where c = ?c and b = ?init
      and b' = "b2\<lparr>new_trace_data := out\<rparr>" and len = 5 and ch = "''em''",
      THEN conjunct2, THEN conjunct2, THEN conjunct2, THEN conjunct1, THEN mp,
      OF conjI [OF run em_ch]]
  have shape: "registered out ''em'' 5" by simp
  note structured = inst [THEN conjunct2, THEN conjunct2, THEN conjunct2, THEN conjunct2,
      THEN conjunct2, THEN mp, OF conjI [OF h1 allI [OF refl]], unfolded calls1]
  have rows_em: "channel_rows ''em'' ?rows = [[0, 9, 9, 9, 0], [0, 9, 9, 0, 0]]" by code_simp
  have bytes: "concat (map (tobytes 2) [[0, 9, 9, 9, 0], [0, 9, 9, 0, 0]])
                 = [0, 0, 9, 0, 9, 0, 9, 0, 0, 0, 0, 0, 9, 0, 9, 0, 0, 0, 0, 0]"
    by code_simp
  from structured have stored: "file_data (addTraces (prepareForRecord 2 5 2 DIRECTWRITE)
         (map (tobytes 2) [[0, 9, 9, 9, 0], [0, 9, 9, 0, 0]]))
       = [0, 0, 9, 0, 9, 0, 9, 0, 0, 0, 0, 0, 9, 0, 9, 0, 0, 0, 0, 0]"
    unfolding rows_em bytes by simp
  from structured have count: "recordsWritten (addTraces (prepareForRecord 2 5 2 DIRECTWRITE)
         (map (tobytes 2) [[0, 9, 9, 9, 0], [0, 9, 9, 0, 0]])) = 2"
    unfolding rows_em by simp
  have ex: "\<exists>scanned_state registered_state out.
          scan ?c ?init [0, 1] = Inr scanned_state
          \<and> cut_rows ?c scanned_state (\<lambda>x. x) 5 [0, 1] = ?rows
          \<and> register_signal_channels ?c scanned_state 5 = Inr registered_state
          \<and> cut_loop ?c registered_state 5 0 [0, 1]
              = Inr (registered_state\<lparr>new_trace_data := out\<rparr>, 2)
          \<and> add_traces (new_trace_data registered_state) ?rows = Inr out
          \<and> npy_mm out ''em'' = Some [[0, 9, 9, 9, 0], [0, 9, 9, 0, 0]]
          \<and> run ?c ?init = Inr (registered_state\<lparr>new_trace_data := out\<rparr>, 5)
          \<and> registered out ''em'' 5"
    by (intro exI conjI)
       (rule scan [unfolded upt], rule calls1, rule reg, rule loop,
        rule written [unfolded calls1], rule em, rule run, rule shape)
  show ?thesis by (intro conjI) (rule sc, rule cut, rule ex, rule ev, rule stored, rule count)
qed

end
